theory Spec2Isabelle
  imports Main "HOL-Library.Monad_Syntax"
begin

section \<open>Data model of KubaGame.py\<close>

text \<open>
  A cell of the board is a Python string: \<open>''W''\<close>, \<open>''B''\<close>, \<open>''R''\<close> or the blank
  \<open>''X''\<close>. The board is a list of rows, each a list of cells. Player names, colours and
  directions are strings as well; the counters are Python integers.
\<close>

type_synonym board = "string list list"

text \<open>The class KubaPlayer; the fields are named after its getters.\<close>

record KubaPlayer =
  get_name :: string
  get_color :: string
  get_red :: int
  get_opponent_marbles :: int

text \<open>
  The class KubaGame. \<open>players\<close> is the two-element list \<open>_players\<close>, kept as a pair
  (index 0, index 1). \<open>None\<close> in an optional field is Python's \<open>None\<close>.
\<close>

record KubaGame =
  players :: "KubaPlayer \<times> KubaPlayer"
  winner :: "string option"
  turn :: "string option"
  board :: board
  red :: int
  white :: int
  black :: int
  no_go_move :: "(int \<times> int \<times> string) option"
  captured_marble :: "string option"
  temp_board :: "board option"

definition KubaPlayer_init :: "string \<Rightarrow> string \<Rightarrow> KubaPlayer" where
  "KubaPlayer_init nm col =
     \<lparr>get_name = nm, get_color = col, get_red = 0, get_opponent_marbles = 0\<rparr>"

definition add_red :: "KubaPlayer \<Rightarrow> KubaPlayer" where
  "add_red p = p\<lparr>get_red := get_red p + 1\<rparr>"

definition add_opponent_marbles :: "KubaPlayer \<Rightarrow> KubaPlayer" where
  "add_opponent_marbles p = p\<lparr>get_opponent_marbles := get_opponent_marbles p + 1\<rparr>"

definition initial_board :: board where
  "initial_board =
    [ [''W'', ''W'', ''X'', ''X'', ''X'', ''B'', ''B''],
      [''W'', ''W'', ''X'', ''R'', ''X'', ''B'', ''B''],
      [''X'', ''X'', ''R'', ''R'', ''R'', ''X'', ''W''],
      [''X'', ''R'', ''R'', ''R'', ''R'', ''R'', ''X''],
      [''X'', ''X'', ''R'', ''R'', ''R'', ''X'', ''X''],
      [''B'', ''B'', ''X'', ''R'', ''X'', ''W'', ''W''],
      [''B'', ''B'', ''X'', ''X'', ''X'', ''W'', ''W''] ]"

text \<open>\<open>KubaGame.__init__(pc_tup_1, pc_tup_2)\<close>.\<close>

definition KubaGame_init :: "string \<times> string \<Rightarrow> string \<times> string \<Rightarrow> KubaGame" where
  "KubaGame_init pc_tup_1 pc_tup_2 =
     \<lparr>players = (KubaPlayer_init (fst pc_tup_1) (snd pc_tup_1),
                 KubaPlayer_init (fst pc_tup_2) (snd pc_tup_2)),
      winner = None, turn = None, board = initial_board,
      red = 13, white = 8, black = 8,
      no_go_move = None, captured_marble = None, temp_board = None\<rparr>"

definition get_marble_count :: "KubaGame \<Rightarrow> int \<times> int \<times> int" where
  "get_marble_count self = (white self, black self, red self)"

subsection \<open>Subscripting\<close>

text \<open>
  A subscript \<open>xs[i]\<close>. The result is \<open>None\<close> when \<open>i\<close> lies outside \<open>0 .. len(xs) - 1\<close>:
  Python raises IndexError above that range and below \<open>-len(xs)\<close>, and counts from the end
  for the negative subscripts in between, which no access of this program is meant to use.
  The model stops in both cases, so a result \<open>Some _\<close> says that every subscript was within
  the list. In all functions below \<open>None\<close> is a run that does not return normally.
\<close>

definition item :: "'a list \<Rightarrow> int \<Rightarrow> 'a option" where
  "item xs i = (if 0 \<le> i \<and> i < int (length xs) then Some (xs ! nat i) else None)"

definition get_cell :: "board \<Rightarrow> int \<times> int \<Rightarrow> string option" where
  "get_cell b rc = do { r \<leftarrow> item b (fst rc); item r (snd rc) }"

text \<open>The assignment \<open>b[row][column] = v\<close> on the working copy.\<close>

definition set_cell :: "board \<Rightarrow> int \<times> int \<Rightarrow> string \<Rightarrow> board option" where
  "set_cell b rc v = do {
     r \<leftarrow> item b (fst rc);
     _ \<leftarrow> item r (snd rc);
     Some (b[nat (fst rc) := r[nat (snd rc) := v]])
   }"

text \<open>\<open>get_marble(corr_tup)\<close> reads the authoritative board.\<close>

definition get_marble :: "KubaGame \<Rightarrow> int \<times> int \<Rightarrow> string option" where
  "get_marble self corr_tup = get_cell (board self) corr_tup"

subsection \<open>The loops of the move methods\<close>

text \<open>
  \<open>for num in nums: if temp_board[..num..] == 'X': m = num; break\<close>, where \<open>m\<close> was
  initialised to \<open>dflt\<close>. \<open>at num\<close> is the cell the loop reads: \<open>(row, num)\<close> in a row scan,
  \<open>(num, column)\<close> in a column scan.
\<close>

fun next_blank :: "board \<Rightarrow> (int \<Rightarrow> int \<times> int) \<Rightarrow> int list \<Rightarrow> int \<Rightarrow> int option" where
  "next_blank tb at [] dflt = Some dflt"
| "next_blank tb at (num # nums) dflt = do {
     v \<leftarrow> get_cell tb (at num);
     if v = ''X'' then Some num else next_blank tb at nums dflt
   }"

text \<open>
  \<open>for num in nums: temp_board[..num..] = temp_board[..num + step..]\<close>, the loop that
  slides the line of marbles by one cell.
\<close>

fun slide :: "board \<Rightarrow> (int \<Rightarrow> int \<times> int) \<Rightarrow> int \<Rightarrow> int list \<Rightarrow> board option" where
  "slide tb at step [] = Some tb"
| "slide tb at step (num # nums) = do {
     v \<leftarrow> get_cell tb (at (num + step));
     tb' \<leftarrow> set_cell tb (at num) v;
     slide tb' at step nums
   }"

text \<open>
  The test \<open>self._no_go_move is not None and coor_tup[0] == self._no_go_move[0] and
  coor_tup[1] == self._no_go_move[1] and self._no_go_move[2] == d\<close>.
\<close>

definition no_go_hit :: "(int \<times> int \<times> string) option \<Rightarrow> int \<times> int \<Rightarrow> string \<Rightarrow> bool" where
  "no_go_hit ng coor_tup d =
     (case ng of None \<Rightarrow> False
      | Some (r, c, d') \<Rightarrow> fst coor_tup = r \<and> snd coor_tup = c \<and> d' = d)"

section \<open>The four move methods\<close>

text \<open>
  Each method works on \<open>_temp_board\<close>, a deep copy of \<open>_board\<close> taken at its start, so the
  assignments never reach the authoritative board. It returns the method's boolean and the
  object's new state. \<open>range(column, -1, -1)\<close> is \<open>rev [0..column]\<close>, \<open>range(m, column)\<close> is
  \<open>[m..column - 1]\<close>, \<open>range(column, 7)\<close> is \<open>[column..6]\<close> and \<open>range(m, column, -1)\<close> is
  \<open>rev [column + 1..m]\<close>.
\<close>

definition move_left :: "KubaGame \<Rightarrow> int \<times> int \<Rightarrow> KubaPlayer \<Rightarrow> (bool \<times> KubaGame) option" where
  "move_left self coor_tup player =
    (let tb = board self;
         self = self\<lparr>temp_board := Some tb, captured_marble := None\<rparr>;
         row = fst coor_tup;
         column = snd coor_tup
     in do {
       blocked \<leftarrow> (if column \<noteq> 6
                   then do { val \<leftarrow> get_cell tb (row, column + 1); Some (val \<noteq> ''X'') }
                   else Some False);
       if blocked then Some (False, self)
       else do {
         m \<leftarrow> next_blank tb (\<lambda>num. (row, num)) (rev [0..column]) 0;
         leftmost \<leftarrow> (if m = 0 then map_option Some (get_cell tb (row, m)) else Some None);
         if leftmost = Some (get_color player) then Some (False, self)
         else
           let inverse_bool = (m = 0 \<and> leftmost = Some ''X'');
               self = (case leftmost of
                         Some v \<Rightarrow> if v \<noteq> ''X'' then self\<lparr>captured_marble := Some v\<rparr> else self
                       | None \<Rightarrow> self)
           in if no_go_hit (no_go_move self) coor_tup ''L'' then Some (False, self)
              else do {
                tb1 \<leftarrow> slide tb (\<lambda>num. (row, num)) 1 [m..column - 1];
                tb2 \<leftarrow> set_cell tb1 (row, column) ''X'';
                Some (True, self\<lparr>temp_board := Some tb2,
                                  no_go_move := (if inverse_bool then Some (row, m, ''R'') else None)\<rparr>)
              }
       }
     })"

definition move_right :: "KubaGame \<Rightarrow> int \<times> int \<Rightarrow> KubaPlayer \<Rightarrow> (bool \<times> KubaGame) option" where
  "move_right self coor_tup player =
    (let tb = board self;
         self = self\<lparr>temp_board := Some tb, captured_marble := None\<rparr>;
         row = fst coor_tup;
         column = snd coor_tup
     in do {
       blocked \<leftarrow> (if column \<noteq> 0
                   then do { val \<leftarrow> get_cell tb (row, column - 1); Some (val \<noteq> ''X'') }
                   else Some False);
       if blocked then Some (False, self)
       else do {
         m \<leftarrow> next_blank tb (\<lambda>num. (row, num)) [column..6] 6;
         rightmost \<leftarrow> (if m = 6 then map_option Some (get_cell tb (row, m)) else Some None);
         if rightmost = Some (get_color player) then Some (False, self)
         else
           let inverse_bool = (m = 6 \<and> rightmost = Some ''X'');
               self = (case rightmost of
                         Some v \<Rightarrow> if v \<noteq> ''X'' then self\<lparr>captured_marble := Some v\<rparr> else self
                       | None \<Rightarrow> self)
           in if no_go_hit (no_go_move self) coor_tup ''R'' then Some (False, self)
              else do {
                tb1 \<leftarrow> slide tb (\<lambda>num. (row, num)) (- 1) (rev [column + 1..m]);
                tb2 \<leftarrow> set_cell tb1 (row, column) ''X'';
                Some (True, self\<lparr>temp_board := Some tb2,
                                  no_go_move := (if inverse_bool then Some (row, m, ''L'') else None)\<rparr>)
              }
       }
     })"

definition move_forward :: "KubaGame \<Rightarrow> int \<times> int \<Rightarrow> KubaPlayer \<Rightarrow> (bool \<times> KubaGame) option" where
  "move_forward self coor_tup player =
    (let tb = board self;
         self = self\<lparr>temp_board := Some tb, captured_marble := None\<rparr>;
         row = fst coor_tup;
         column = snd coor_tup
     in do {
       blocked \<leftarrow> (if row \<noteq> 6
                   then do { val \<leftarrow> get_cell tb (row + 1, column); Some (val \<noteq> ''X'') }
                   else Some False);
       if blocked then Some (False, self)
       else do {
         m \<leftarrow> next_blank tb (\<lambda>num. (num, column)) (rev [0..row]) 0;
         topmost \<leftarrow> (if m = 0 then map_option Some (get_cell tb (m, column)) else Some None);
         if topmost = Some (get_color player) then Some (False, self)
         else
           let inverse_bool = (m = 0 \<and> topmost = Some ''X'');
               self = (case topmost of
                         Some v \<Rightarrow> if v \<noteq> ''X'' then self\<lparr>captured_marble := Some v\<rparr> else self
                       | None \<Rightarrow> self)
           in if no_go_hit (no_go_move self) coor_tup ''F'' then Some (False, self)
              else do {
                tb1 \<leftarrow> slide tb (\<lambda>num. (num, column)) 1 [m..row - 1];
                tb2 \<leftarrow> set_cell tb1 (row, column) ''X'';
                Some (True, self\<lparr>temp_board := Some tb2,
                                  no_go_move := (if inverse_bool then Some (m, column, ''B'') else None)\<rparr>)
              }
       }
     })"

definition move_backward :: "KubaGame \<Rightarrow> int \<times> int \<Rightarrow> KubaPlayer \<Rightarrow> (bool \<times> KubaGame) option" where
  "move_backward self coor_tup player =
    (let tb = board self;
         self = self\<lparr>temp_board := Some tb, captured_marble := None\<rparr>;
         row = fst coor_tup;
         column = snd coor_tup
     in do {
       blocked \<leftarrow> (if row \<noteq> 0
                   then do { val \<leftarrow> get_cell tb (row - 1, column); Some (val \<noteq> ''X'') }
                   else Some False);
       if blocked then Some (False, self)
       else do {
         m \<leftarrow> next_blank tb (\<lambda>num. (num, column)) [row..6] 6;
         bottommost \<leftarrow> (if m = 6 then map_option Some (get_cell tb (m, column)) else Some None);
         if bottommost = Some (get_color player) then Some (False, self)
         else
           let inverse_bool = (m = 6 \<and> bottommost = Some ''X'');
               self = (case bottommost of
                         Some v \<Rightarrow> if v \<noteq> ''X'' then self\<lparr>captured_marble := Some v\<rparr> else self
                       | None \<Rightarrow> self)
           in if no_go_hit (no_go_move self) coor_tup ''B'' then Some (False, self)
              else do {
                tb1 \<leftarrow> slide tb (\<lambda>num. (num, column)) (- 1) (rev [row + 1..m]);
                tb2 \<leftarrow> set_cell tb1 (row, column) ''X'';
                Some (True, self\<lparr>temp_board := Some tb2,
                                  no_go_move := (if inverse_bool then Some (m, column, ''F'') else None)\<rparr>)
              }
       }
     })"

section \<open>update\_marbles and make\_move\<close>

text \<open>
  \<open>update_marbles(cell_captured, player)\<close>; the player object is the entry of index \<open>curr\<close> (here \<open>curr_ix\<close>) of the
  list \<open>_players\<close>, so its counters are written there.
\<close>

definition player_at :: "KubaGame \<Rightarrow> nat \<Rightarrow> KubaPlayer" where
  "player_at self curr_ix = (if curr_ix = 0 then fst (players self) else snd (players self))"

definition put_player :: "KubaGame \<Rightarrow> nat \<Rightarrow> KubaPlayer \<Rightarrow> KubaGame" where
  "put_player self curr_ix p =
     (if curr_ix = 0 then self\<lparr>players := (p, snd (players self))\<rparr>
      else self\<lparr>players := (fst (players self), p)\<rparr>)"

definition update_marbles :: "KubaGame \<Rightarrow> string \<Rightarrow> nat \<Rightarrow> KubaGame" where
  "update_marbles self cell_captured curr_ix =
     (if cell_captured = ''R''
      then (put_player self curr_ix (add_red (player_at self curr_ix)))\<lparr>red := red self - 1\<rparr>
      else let self = put_player self curr_ix (add_opponent_marbles (player_at self curr_ix))
           in if cell_captured = ''W'' then self\<lparr>white := white self - 1\<rparr>
              else self\<lparr>black := black self - 1\<rparr>)"

text \<open>
  The search for a legal move in make\_move: the inner loop over the columns of one row,
  left by \<open>break\<close> at the first marble of the player that can be pushed, and the outer loop
  over the rows, which goes on after such a break. The four test pushes run one after the
  other on the object, each seeing the fields the one before has written.
\<close>

fun scan_columns ::
  "KubaGame \<Rightarrow> KubaPlayer \<Rightarrow> int \<Rightarrow> int list \<Rightarrow> bool \<Rightarrow> (bool \<times> KubaGame) option" where
  "scan_columns self current_player row [] can_move = Some (can_move, self)"
| "scan_columns self current_player row (column # columns) can_move = do {
     cell \<leftarrow> get_cell (board self) (row, column);
     if cell = get_color current_player then do {
       (test_left, self) \<leftarrow> move_left self (row, column) current_player;
       (test_right, self) \<leftarrow> move_right self (row, column) current_player;
       (test_forward, self) \<leftarrow> move_forward self (row, column) current_player;
       (test_backward, self) \<leftarrow> move_backward self (row, column) current_player;
       if test_left \<or> test_right \<or> test_forward \<or> test_backward then Some (True, self)
       else scan_columns self current_player row columns can_move
     }
     else scan_columns self current_player row columns can_move
   }"

fun scan_rows :: "KubaGame \<Rightarrow> KubaPlayer \<Rightarrow> int list \<Rightarrow> bool \<Rightarrow> (bool \<times> KubaGame) option" where
  "scan_rows self current_player [] can_move = Some (can_move, self)"
| "scan_rows self current_player (row # rows) can_move = do {
     (can_move, self) \<leftarrow> scan_columns self current_player row [0..6] can_move;
     scan_rows self current_player rows can_move
   }"

text \<open>
  The lookup of the player object by name: the current player, the other player and the
  index \<open>curr\<close>; \<open>None\<close> here is the branch "Invalid playername".
\<close>

definition lookup_player :: "KubaGame \<Rightarrow> string \<Rightarrow> (KubaPlayer \<times> KubaPlayer \<times> nat) option" where
  "lookup_player self playername =
     (if get_name (fst (players self)) = playername
      then Some (fst (players self), snd (players self), 0)
      else if get_name (snd (players self)) = playername
      then Some (snd (players self), fst (players self), 1)
      else None)"

text \<open>
  make\_move. The loop \<open>for num in coordinates\<close> is the two tests on the pair. The
  assignment \<open>self._board = self._temp_board\<close> reads the field the move method has just
  written; were it still \<open>None\<close>, the board would be lost and the run is counted as not
  returning.
\<close>

definition make_move :: "KubaGame \<Rightarrow> string \<Rightarrow> int \<times> int \<Rightarrow> string \<Rightarrow> (bool \<times> KubaGame) option" where
  "make_move self playername coordinates direction =
    (let self = (if turn self = None then self\<lparr>turn := Some playername\<rparr> else self)
     in if turn self \<noteq> Some playername then Some (False, self)
        else if winner self \<noteq> None then Some (False, self)
        else if fst coordinates < 0 \<or> fst coordinates > 6 then Some (False, self)
        else if snd coordinates < 0 \<or> snd coordinates > 6 then Some (False, self)
        else case lookup_player self playername of
          None \<Rightarrow> Some (False, self)
        | Some (current_player, other_player, curr_ix) \<Rightarrow> do {
            marble \<leftarrow> get_marble self coordinates;
            if marble \<noteq> get_color current_player then Some (False, self)
            else do {
              let temp_no_go = no_go_move self;
              (can_move, self) \<leftarrow> scan_rows self current_player [0..6] False;
              let self = self\<lparr>no_go_move := temp_no_go\<rparr>;
              if \<not> can_move then Some (False, self\<lparr>winner := Some (get_name other_player)\<rparr>)
              else do {
                res \<leftarrow> (if direction = ''L'' then map_option Some (move_left self coordinates current_player)
                        else if direction = ''R'' then map_option Some (move_right self coordinates current_player)
                        else if direction = ''F'' then map_option Some (move_forward self coordinates current_player)
                        else if direction = ''B'' then map_option Some (move_backward self coordinates current_player)
                        else Some None);
                case res of
                  None \<Rightarrow> Some (False, self)
                | Some (temp, self) \<Rightarrow>
                    if \<not> temp then Some (False, self)
                    else do {
                      let self = (case captured_marble self of
                                    Some cm \<Rightarrow> update_marbles self cm curr_ix
                                  | None \<Rightarrow> self);
                      tb \<leftarrow> temp_board self;
                      let self = self\<lparr>board := tb\<rparr>;
                      let current_player = player_at self curr_ix;
                      let self = (if get_opponent_marbles current_player \<ge> 8 \<or> get_red current_player \<ge> 7
                                  then self\<lparr>winner := Some playername\<rparr> else self);
                      let self = (if curr_ix = 0 then self\<lparr>turn := Some (get_name (snd (players self)))\<rparr>
                                  else self\<lparr>turn := Some (get_name (fst (players self)))\<rparr>);
                      Some (True, self)
                    }
              }
            }
          })"

section \<open>Vocabulary of the properties\<close>

text \<open>The game built by the script at the end of the file.\<close>

definition new_game :: KubaGame where
  "new_game = KubaGame_init (''PlayerA'', ''W'') (''PlayerB'', ''B'')"

text \<open>The number of marbles of one colour lying on a board, and of all three colours.\<close>

definition marbles_on_board :: "board \<Rightarrow> string \<Rightarrow> nat" where
  "marbles_on_board b col = length (filter (\<lambda>c. c = col) (concat b))"

definition total_on_board :: "board \<Rightarrow> nat" where
  "total_on_board b = marbles_on_board b ''R'' + marbles_on_board b ''W'' + marbles_on_board b ''B''"

text \<open>All captures recorded by the two players.\<close>

definition total_captured :: "KubaGame \<Rightarrow> int" where
  "total_captured self =
     get_red (fst (players self)) + get_opponent_marbles (fst (players self))
     + get_red (snd (players self)) + get_opponent_marbles (snd (players self))"

text \<open>A board of seven rows of seven cells, and a pair of coordinates on it.\<close>

definition wf_board :: "board \<Rightarrow> bool" where
  "wf_board b \<longleftrightarrow> length b = 7 \<and> list_all (\<lambda>r. length r = 7) b"

definition in_range :: "int \<times> int \<Rightarrow> bool" where
  "in_range rc \<longleftrightarrow> 0 \<le> fst rc \<and> fst rc \<le> 6 \<and> 0 \<le> snd rc \<and> snd rc \<le> 6"

subsection \<open>Pushes, by direction\<close>

text \<open>
  The four directions make\_move knows, and its chain of comparisons on the direction; any
  other string makes it return False with the object as it is.
\<close>

definition dirs :: "string list" where
  "dirs = [''L'', ''R'', ''F'', ''B'']"

definition push :: "string \<Rightarrow> KubaGame \<Rightarrow> int \<times> int \<Rightarrow> KubaPlayer \<Rightarrow> (bool \<times> KubaGame) option" where
  "push d self ct pl =
     (if d = ''L'' then move_left self ct pl
      else if d = ''R'' then move_right self ct pl
      else if d = ''F'' then move_forward self ct pl
      else if d = ''B'' then move_backward self ct pl
      else Some (False, self))"

text \<open>
  The cells a push at \<open>ct\<close> runs over, from \<open>ct\<close> to the edge of the board in the direction
  of the push (left is towards column 0, right towards column 6, forward towards row 0,
  backward towards row 6); the last of them, on the edge; the cell on the other side of
  \<open>ct\<close>, if the board has one; and the opposite direction.
\<close>

definition line :: "string \<Rightarrow> int \<times> int \<Rightarrow> (int \<times> int) list" where
  "line d ct =
     (if d = ''L'' then map (\<lambda>n. (fst ct, n)) (rev [0..snd ct])
      else if d = ''R'' then map (\<lambda>n. (fst ct, n)) [snd ct..6]
      else if d = ''F'' then map (\<lambda>n. (n, snd ct)) (rev [0..fst ct])
      else map (\<lambda>n. (n, snd ct)) [fst ct..6])"

definition edge_cell :: "string \<Rightarrow> int \<times> int \<Rightarrow> int \<times> int" where
  "edge_cell d ct =
     (if d = ''L'' then (fst ct, 0)
      else if d = ''R'' then (fst ct, 6)
      else if d = ''F'' then (0, snd ct)
      else (6, snd ct))"

definition behind :: "string \<Rightarrow> int \<times> int \<Rightarrow> (int \<times> int) option" where
  "behind d ct =
     (if d = ''L'' then (if snd ct \<noteq> 6 then Some (fst ct, snd ct + 1) else None)
      else if d = ''R'' then (if snd ct \<noteq> 0 then Some (fst ct, snd ct - 1) else None)
      else if d = ''F'' then (if fst ct \<noteq> 6 then Some (fst ct + 1, snd ct) else None)
      else (if fst ct \<noteq> 0 then Some (fst ct - 1, snd ct) else None))"

definition opposite :: "string \<Rightarrow> string" where
  "opposite d = (if d = ''L'' then ''R'' else if d = ''R'' then ''L''
                 else if d = ''F'' then ''B'' else ''F'')"

definition blank :: "board \<Rightarrow> int \<times> int \<Rightarrow> bool" where
  "blank b p \<longleftrightarrow> get_cell b p = Some ''X''"

definition free_behind :: "board \<Rightarrow> int \<times> int \<Rightarrow> string \<Rightarrow> bool" where
  "free_behind b ct d \<longleftrightarrow> (case behind d ct of None \<Rightarrow> True | Some p \<Rightarrow> blank b p)"

text \<open>
  No cell of the line is blank: the push moves the marble of the edge cell off the board.
\<close>

definition line_full :: "board \<Rightarrow> int \<times> int \<Rightarrow> string \<Rightarrow> bool" where
  "line_full b ct d \<longleftrightarrow> list_all (\<lambda>p. \<not> blank b p) (line d ct)"

text \<open>
  The first blank cell of the line is the edge cell itself: the marbles slide by one cell
  and the first of them comes to lie on the edge.
\<close>

definition slides_to_edge :: "board \<Rightarrow> int \<times> int \<Rightarrow> string \<Rightarrow> bool" where
  "slides_to_edge b ct d \<longleftrightarrow>
     list_all (\<lambda>p. \<not> blank b p) (butlast (line d ct)) \<and> blank b (edge_cell d ct)"

text \<open>
  What the move methods test, in their order: the cell behind is free, the marble on the
  edge (when the scan has stopped there) is not of the player's colour, the push is not the
  no-go move.
\<close>

definition legal_push ::
  "board \<Rightarrow> (int \<times> int \<times> string) option \<Rightarrow> string \<Rightarrow> int \<times> int \<Rightarrow> string \<Rightarrow> bool" where
  "legal_push b ng col ct d \<longleftrightarrow>
     free_behind b ct d
     \<and> \<not> ((line_full b ct d \<or> slides_to_edge b ct d) \<and> get_cell b (edge_cell d ct) = Some col)
     \<and> \<not> no_go_hit ng ct d"

definition any_legal_at ::
  "board \<Rightarrow> (int \<times> int \<times> string) option \<Rightarrow> string \<Rightarrow> int \<times> int \<Rightarrow> bool" where
  "any_legal_at b ng col ct \<longleftrightarrow> list_ex (\<lambda>d. legal_push b ng col ct d) dirs"

definition legal_in_row ::
  "board \<Rightarrow> (int \<times> int \<times> string) option \<Rightarrow> string \<Rightarrow> int \<Rightarrow> int list \<Rightarrow> bool" where
  "legal_in_row b ng col row cols \<longleftrightarrow>
     list_ex (\<lambda>c. get_cell b (row, c) = Some col \<and> any_legal_at b ng col (row, c)) cols"

definition any_legal_push :: "board \<Rightarrow> (int \<times> int \<times> string) option \<Rightarrow> string \<Rightarrow> bool" where
  "any_legal_push b ng col \<longleftrightarrow> list_ex (\<lambda>r. legal_in_row b ng col r [0..6]) [0..6]"

text \<open>
  The player has a legal push: one of the four move methods, run on the game as it is,
  returns True for one of the player's marbles.
\<close>

definition has_legal_push :: "KubaGame \<Rightarrow> KubaPlayer \<Rightarrow> bool" where
  "has_legal_push s pl \<longleftrightarrow>
     list_ex (\<lambda>r. list_ex (\<lambda>c. get_cell (board s) (r, c) = Some (get_color pl)
                          \<and> list_ex (\<lambda>d. map_option fst (push d s (r, c) pl) = Some True) dirs)
                      [0..6]) [0..6]"

subsection \<open>The move methods as one function\<close>

text \<open>
  The four move methods differ in the cells they read (\<open>at\<close>), the order of the scan
  (\<open>nums\<close>), the index of the edge, the cell behind, the cells of the shift and its step, and
  the two letters. \<open>push_line\<close> is their common text; each method is shown below to be an
  instance of it.
\<close>

definition push_line ::
  "(int \<Rightarrow> int \<times> int) \<Rightarrow> int list \<Rightarrow> int \<Rightarrow> (int \<times> int) option \<Rightarrow> (int \<Rightarrow> int list) \<Rightarrow> int
    \<Rightarrow> string \<Rightarrow> string \<Rightarrow> KubaGame \<Rightarrow> int \<times> int \<Rightarrow> KubaPlayer \<Rightarrow> (bool \<times> KubaGame) option" where
  "push_line at nums edge bh slide_nums step dl dinv self coor_tup player =
    (let tb = board self;
         self = self\<lparr>temp_board := Some tb, captured_marble := None\<rparr>
     in do {
       blocked \<leftarrow> (case bh of
                     Some bc \<Rightarrow> do { val \<leftarrow> get_cell tb bc; Some (val \<noteq> ''X'') }
                   | None \<Rightarrow> Some False);
       if blocked then Some (False, self)
       else do {
         m \<leftarrow> next_blank tb at nums edge;
         e \<leftarrow> (if m = edge then map_option Some (get_cell tb (at m)) else Some None);
         if e = Some (get_color player) then Some (False, self)
         else
           let inverse_bool = (m = edge \<and> e = Some ''X'');
               self = (case e of
                         Some v \<Rightarrow> if v \<noteq> ''X'' then self\<lparr>captured_marble := Some v\<rparr> else self
                       | None \<Rightarrow> self)
           in if no_go_hit (no_go_move self) coor_tup dl then Some (False, self)
              else do {
                tb1 \<leftarrow> slide tb at step (slide_nums m);
                tb2 \<leftarrow> set_cell tb1 coor_tup ''X'';
                Some (True, self\<lparr>temp_board := Some tb2,
                                  no_go_move := (if inverse_bool then Some (fst (at m), snd (at m), dinv) else None)\<rparr>)
              }
       }
     })"

text \<open>The end of make\_move, from the capture bookkeeping on, once the push has returned True.\<close>

definition commit :: "KubaGame \<Rightarrow> nat \<Rightarrow> string \<Rightarrow> (bool \<times> KubaGame) option" where
  "commit self i p = do {
     let self = (case captured_marble self of
                   Some cm \<Rightarrow> update_marbles self cm i
                 | None \<Rightarrow> self);
     tb \<leftarrow> temp_board self;
     let self = self\<lparr>board := tb\<rparr>;
     let current_player = player_at self i;
     let self = (if get_opponent_marbles current_player \<ge> 8 \<or> get_red current_player \<ge> 7
                 then self\<lparr>winner := Some p\<rparr> else self);
     let self = (if i = 0 then self\<lparr>turn := Some (get_name (snd (players self)))\<rparr>
                 else self\<lparr>turn := Some (get_name (fst (players self)))\<rparr>);
     Some (True, self)
   }"

text \<open>
  Two states of the object that differ at most in the scratch fields \<open>_temp_board\<close> and
  \<open>_captured_marble\<close> and in the no-go move.
\<close>

definition scratch_eq :: "KubaGame \<Rightarrow> KubaGame \<Rightarrow> bool" where
  "scratch_eq s s' \<longleftrightarrow>
     players s' = players s \<and> winner s' = winner s \<and> turn s' = turn s \<and> board s' = board s
     \<and> red s' = red s \<and> white s' = white s \<and> black s' = black s"

subsection \<open>Runs of the game\<close>

text \<open>
  The state after a list of calls of make\_move that all return True (\<open>None\<close> if one of
  them returns False or does not return), and the states a game can be in: the constructor
  builds it and any calls of make\_move with integer coordinates follow.
\<close>

fun after_moves :: "KubaGame \<Rightarrow> (string \<times> (int \<times> int) \<times> string) list \<Rightarrow> KubaGame option" where
  "after_moves s [] = Some s"
| "after_moves s ((p, ct, d) # ms) = do {
     (ok, s') \<leftarrow> make_move s p ct d;
     if ok then after_moves s' ms else None
   }"

inductive reachable :: "KubaGame \<Rightarrow> bool" where
  init: "reachable (KubaGame_init pc_tup_1 pc_tup_2)"
| step: "reachable s \<Longrightarrow> make_move s p (r, c) d = Some (ok, s') \<Longrightarrow> reachable s'"

subsection \<open>Positions used as examples\<close>

text \<open>
  Four moves into the game of the script, PlayerA to move: the marbles of column 0 are,
  from row 2 down, white, white, black, black, and the cell of row 6 is blank.
\<close>

definition four_moves :: "(string \<times> (int \<times> int) \<times> string) list" where
  "four_moves = [(''PlayerA'', (0, 0), ''B''), (''PlayerB'', (6, 0), ''F''),
                 (''PlayerA'', (1, 0), ''B''), (''PlayerB'', (6, 1), ''F'')]"

definition four_moves_game :: KubaGame where
  "four_moves_game =
     \<lparr>players = (KubaPlayer_init ''PlayerA'' ''W'', KubaPlayer_init ''PlayerB'' ''B''),
      winner = None, turn = Some ''PlayerA'',
      board =
        [ [''X'', ''W'', ''X'', ''X'', ''X'', ''B'', ''B''],
          [''X'', ''W'', ''X'', ''R'', ''X'', ''B'', ''B''],
          [''W'', ''X'', ''R'', ''R'', ''R'', ''X'', ''W''],
          [''W'', ''R'', ''R'', ''R'', ''R'', ''R'', ''X''],
          [''B'', ''B'', ''R'', ''R'', ''R'', ''X'', ''X''],
          [''B'', ''B'', ''X'', ''R'', ''X'', ''W'', ''W''],
          [''X'', ''X'', ''X'', ''X'', ''X'', ''W'', ''W''] ],
      red = 13, white = 8, black = 8,
      no_go_move = None, captured_marble = None,
      temp_board = Some
        [ [''X'', ''W'', ''X'', ''X'', ''X'', ''B'', ''B''],
          [''X'', ''W'', ''X'', ''R'', ''X'', ''B'', ''B''],
          [''W'', ''X'', ''R'', ''R'', ''R'', ''X'', ''W''],
          [''W'', ''R'', ''R'', ''R'', ''R'', ''R'', ''X''],
          [''B'', ''B'', ''R'', ''R'', ''R'', ''X'', ''X''],
          [''B'', ''B'', ''X'', ''R'', ''X'', ''W'', ''W''],
          [''X'', ''X'', ''X'', ''X'', ''X'', ''W'', ''W''] ]\<rparr>"

text \<open>
  The position after PlayerA's fifth move, the push of (2, 0) backward: the four marbles
  have slid down column 0 into the blank edge cell, and PlayerB is to move.
\<close>

definition edge_push_game :: KubaGame where
  "edge_push_game =
     \<lparr>players = (KubaPlayer_init ''PlayerA'' ''W'', KubaPlayer_init ''PlayerB'' ''B''),
      winner = None, turn = Some ''PlayerB'',
      board =
        [ [''X'', ''W'', ''X'', ''X'', ''X'', ''B'', ''B''],
          [''X'', ''W'', ''X'', ''R'', ''X'', ''B'', ''B''],
          [''X'', ''X'', ''R'', ''R'', ''R'', ''X'', ''W''],
          [''W'', ''R'', ''R'', ''R'', ''R'', ''R'', ''X''],
          [''W'', ''B'', ''R'', ''R'', ''R'', ''X'', ''X''],
          [''B'', ''B'', ''X'', ''R'', ''X'', ''W'', ''W''],
          [''B'', ''X'', ''X'', ''X'', ''X'', ''W'', ''W''] ],
      red = 13, white = 8, black = 8,
      no_go_move = Some (6, 0, ''F''), captured_marble = None,
      temp_board = Some
        [ [''X'', ''W'', ''X'', ''X'', ''X'', ''B'', ''B''],
          [''X'', ''W'', ''X'', ''R'', ''X'', ''B'', ''B''],
          [''X'', ''X'', ''R'', ''R'', ''R'', ''X'', ''W''],
          [''W'', ''R'', ''R'', ''R'', ''R'', ''R'', ''X''],
          [''W'', ''B'', ''R'', ''R'', ''R'', ''X'', ''X''],
          [''B'', ''B'', ''X'', ''R'', ''X'', ''W'', ''W''],
          [''B'', ''X'', ''X'', ''X'', ''X'', ''W'', ''W''] ]\<rparr>"

text \<open>
  A position in which white has no legal push: its four marbles are in the corners, every
  cell next to them is taken, and each edge of the board is a full line that ends in a
  white marble.
\<close>

definition stuck_game :: KubaGame where
  "stuck_game =
     \<lparr>players = (\<lparr>get_name = ''PlayerA'', get_color = ''W'', get_red = 0, get_opponent_marbles = 1\<rparr>,
                 \<lparr>get_name = ''PlayerB'', get_color = ''B'', get_red = 0, get_opponent_marbles = 5\<rparr>),
      winner = None, turn = Some ''PlayerA'',
      board =
        [ [''W'', ''R'', ''R'', ''R'', ''R'', ''R'', ''W''],
          [''R'', ''X'', ''X'', ''X'', ''X'', ''X'', ''R''],
          [''B'', ''X'', ''X'', ''X'', ''X'', ''X'', ''B''],
          [''B'', ''X'', ''X'', ''X'', ''X'', ''X'', ''B''],
          [''B'', ''X'', ''X'', ''X'', ''X'', ''X'', ''B''],
          [''R'', ''X'', ''X'', ''X'', ''X'', ''X'', ''B''],
          [''W'', ''R'', ''R'', ''R'', ''R'', ''R'', ''W''] ],
      red = 13, white = 3, black = 7,
      no_go_move = None, captured_marble = None, temp_board = None\<rparr>"

text \<open>
  A position in which PlayerA has captured six red marbles and can push a seventh off the
  board, with the white marble at (2, 3) to the left.
\<close>

definition red_six_game :: KubaGame where
  "red_six_game =
     \<lparr>players = (\<lparr>get_name = ''PlayerA'', get_color = ''W'', get_red = 6, get_opponent_marbles = 0\<rparr>,
                 \<lparr>get_name = ''PlayerB'', get_color = ''B'', get_red = 0, get_opponent_marbles = 0\<rparr>),
      winner = None, turn = Some ''PlayerA'',
      board =
        [ [''W'', ''W'', ''X'', ''X'', ''X'', ''B'', ''B''],
          [''W'', ''W'', ''X'', ''R'', ''X'', ''B'', ''B''],
          [''R'', ''R'', ''R'', ''W'', ''X'', ''X'', ''X''],
          [''X'', ''X'', ''X'', ''X'', ''X'', ''X'', ''X''],
          [''X'', ''X'', ''X'', ''R'', ''R'', ''X'', ''X''],
          [''B'', ''B'', ''X'', ''R'', ''X'', ''W'', ''W''],
          [''B'', ''B'', ''X'', ''X'', ''X'', ''W'', ''W''] ],
      red = 7, white = 8, black = 8,
      no_go_move = None, captured_marble = None, temp_board = None\<rparr>"

text \<open>
  Three moves from the initial position, all in column 0, after which its marbles are, from
  row 1 down, white, white, black, black, with (0, 0), (5, 0) and (6, 0) blank; PlayerA is
  to move.
\<close>

definition three_moves :: "(string \<times> (int \<times> int) \<times> string) list" where
  "three_moves = [(''PlayerB'', (6, 0), ''F''), (''PlayerA'', (0, 0), ''B''),
                  (''PlayerB'', (5, 0), ''F'')]"

definition three_moves_game :: KubaGame where
  "three_moves_game =
     \<lparr>players = (KubaPlayer_init ''PlayerA'' ''W'', KubaPlayer_init ''PlayerB'' ''B''),
      winner = None, turn = Some ''PlayerA'',
      board =
        [ [''X'', ''W'', ''X'', ''X'', ''X'', ''B'', ''B''],
          [''W'', ''W'', ''X'', ''R'', ''X'', ''B'', ''B''],
          [''W'', ''X'', ''R'', ''R'', ''R'', ''X'', ''W''],
          [''B'', ''R'', ''R'', ''R'', ''R'', ''R'', ''X''],
          [''B'', ''X'', ''R'', ''R'', ''R'', ''X'', ''X''],
          [''X'', ''B'', ''X'', ''R'', ''X'', ''W'', ''W''],
          [''X'', ''B'', ''X'', ''X'', ''X'', ''W'', ''W''] ],
      red = 13, white = 8, black = 8,
      no_go_move = None, captured_marble = None,
      temp_board = Some
        [ [''X'', ''W'', ''X'', ''X'', ''X'', ''B'', ''B''],
          [''W'', ''W'', ''X'', ''R'', ''X'', ''B'', ''B''],
          [''W'', ''X'', ''R'', ''R'', ''R'', ''X'', ''W''],
          [''B'', ''R'', ''R'', ''R'', ''R'', ''R'', ''X''],
          [''B'', ''X'', ''R'', ''R'', ''R'', ''X'', ''X''],
          [''X'', ''B'', ''X'', ''R'', ''X'', ''W'', ''W''],
          [''X'', ''B'', ''X'', ''X'', ''X'', ''W'', ''W''] ]\<rparr>"

text \<open>
  The position after PlayerA's next move, the push of (1, 0) backward: the four marbles
  have slid down by one cell into the blank cell (5, 0), short of the edge cell (6, 0).
\<close>

definition stopped_push_game :: KubaGame where
  "stopped_push_game =
     \<lparr>players = (KubaPlayer_init ''PlayerA'' ''W'', KubaPlayer_init ''PlayerB'' ''B''),
      winner = None, turn = Some ''PlayerB'',
      board =
        [ [''X'', ''W'', ''X'', ''X'', ''X'', ''B'', ''B''],
          [''X'', ''W'', ''X'', ''R'', ''X'', ''B'', ''B''],
          [''W'', ''X'', ''R'', ''R'', ''R'', ''X'', ''W''],
          [''W'', ''R'', ''R'', ''R'', ''R'', ''R'', ''X''],
          [''B'', ''X'', ''R'', ''R'', ''R'', ''X'', ''X''],
          [''B'', ''B'', ''X'', ''R'', ''X'', ''W'', ''W''],
          [''X'', ''B'', ''X'', ''X'', ''X'', ''W'', ''W''] ],
      red = 13, white = 8, black = 8,
      no_go_move = None, captured_marble = None,
      temp_board = Some
        [ [''X'', ''W'', ''X'', ''X'', ''X'', ''B'', ''B''],
          [''X'', ''W'', ''X'', ''R'', ''X'', ''B'', ''B''],
          [''W'', ''X'', ''R'', ''R'', ''R'', ''X'', ''W''],
          [''W'', ''R'', ''R'', ''R'', ''R'', ''R'', ''X''],
          [''B'', ''X'', ''R'', ''R'', ''R'', ''X'', ''X''],
          [''B'', ''B'', ''X'', ''R'', ''X'', ''W'', ''W''],
          [''X'', ''B'', ''X'', ''X'', ''X'', ''W'', ''W''] ]\<rparr>"

text \<open>
  A position in which PlayerA has captured seven black marbles and can push the eighth
  off the board, with the white marble at (3, 1) to the left.
\<close>

definition black_seven_game :: KubaGame where
  "black_seven_game =
     \<lparr>players = (\<lparr>get_name = ''PlayerA'', get_color = ''W'', get_red = 0, get_opponent_marbles = 7\<rparr>,
                 \<lparr>get_name = ''PlayerB'', get_color = ''B'', get_red = 2, get_opponent_marbles = 0\<rparr>),
      winner = None, turn = Some ''PlayerA'',
      board =
        [ [''W'', ''X'', ''X'', ''X'', ''X'', ''X'', ''X''],
          [''W'', ''W'', ''X'', ''R'', ''X'', ''X'', ''X''],
          [''X'', ''X'', ''R'', ''R'', ''R'', ''X'', ''W''],
          [''B'', ''W'', ''X'', ''R'', ''R'', ''R'', ''X''],
          [''X'', ''X'', ''R'', ''R'', ''R'', ''X'', ''X''],
          [''X'', ''X'', ''X'', ''R'', ''X'', ''W'', ''W''],
          [''X'', ''X'', ''X'', ''X'', ''X'', ''W'', ''W''] ],
      red = 11, white = 8, black = 1,
      no_go_move = None, captured_marble = None, temp_board = None\<rparr>"

section \<open>Lemmas on the model\<close>

lemma get_cell_nth:
  "wf_board b \<Longrightarrow> in_range rc \<Longrightarrow> get_cell b rc = Some (b ! nat (fst rc) ! nat (snd rc))"
  by (auto simp: wf_board_def in_range_def get_cell_def item_def list_all_length)

lemma get_cell_Some: "wf_board b \<Longrightarrow> in_range rc \<Longrightarrow> \<exists>v. get_cell b rc = Some v"
  by (simp add: get_cell_nth)

lemma set_cell_nth:
  "wf_board b \<Longrightarrow> in_range rc \<Longrightarrow>
   set_cell b rc v = Some (b[nat (fst rc) := (b ! nat (fst rc))[nat (snd rc) := v]])"
  by (auto simp: wf_board_def in_range_def set_cell_def item_def list_all_length)

lemma wf_board_update: "wf_board b \<Longrightarrow> wf_board (b[i := (b ! i)[j := v]])"
  by (cases "i < length b") (auto simp: wf_board_def list_all_length nth_list_update)

lemma set_cell_wf:
  assumes "wf_board b" "in_range rc"
  shows "\<exists>b'. set_cell b rc v = Some b' \<and> wf_board b' \<and> get_cell b' rc = Some v
          \<and> (\<forall>q. in_range q \<and> q \<noteq> rc \<longrightarrow> get_cell b' q = get_cell b q)"
proof -
  let ?b' = "b[nat (fst rc) := (b ! nat (fst rc))[nat (snd rc) := v]]"
  have wf': "wf_board ?b'" using assms(1) by (rule wf_board_update)
  have 1: "get_cell ?b' rc = Some v"
    using assms wf' by (auto simp: get_cell_nth wf_board_def in_range_def list_all_length)
  have 2: "get_cell ?b' q = get_cell b q" if "in_range q" "q \<noteq> rc" for q
  proof -
    have "fst q \<noteq> fst rc \<or> snd q \<noteq> snd rc" using that(2) by (auto simp: prod_eq_iff)
    then show ?thesis
      using assms wf' that(1)
      by (auto simp: get_cell_nth wf_board_def in_range_def list_all_length nth_list_update)
  qed
  show ?thesis using set_cell_nth[OF assms] wf' 1 2 by blast
qed

lemma next_blank_find:
  assumes "wf_board b" "\<forall>n\<in>set nums. in_range (at n)"
  shows "next_blank b at nums d =
         Some (case find (\<lambda>n. get_cell b (at n) = Some ''X'') nums of None \<Rightarrow> d | Some n \<Rightarrow> n)"
  using assms(2)
proof (induction nums)
  case Nil
  then show ?case by simp
next
  case (Cons n nums)
  obtain v where v: "get_cell b (at n) = Some v"
    using get_cell_Some[OF assms(1), of "at n"] Cons.prems by auto
  show ?case using Cons v by simp
qed

lemma slide_wf:
  assumes "wf_board b" "\<forall>n\<in>set nums. in_range (at n) \<and> in_range (at (n + step))"
  shows "\<exists>b'. slide b at step nums = Some b' \<and> wf_board b'"
  using assms
proof (induction nums arbitrary: b)
  case Nil
  then show ?case by simp
next
  case (Cons n nums)
  obtain v where v: "get_cell b (at (n + step)) = Some v"
    using get_cell_Some[OF Cons.prems(1), of "at (n + step)"] Cons.prems(2) by auto
  obtain b1 where b1: "set_cell b (at n) v = Some b1" "wf_board b1"
    using set_cell_wf[OF Cons.prems(1), of "at n" v] Cons.prems(2) by auto
  have "\<exists>b'. slide b1 at step nums = Some b' \<and> wf_board b'"
    using Cons.IH[OF b1(2)] Cons.prems(2) by simp
  then show ?case using v b1 by simp
qed

lemma find_last_iff:
  assumes "distinct xs" "xs \<noteq> []"
  shows "find P xs = Some (last xs) \<longleftrightarrow> (\<forall>x\<in>set (butlast xs). \<not> P x) \<and> P (last xs)"
  using assms
proof (induction xs)
  case Nil
  then show ?case by simp
next
  case (Cons x xs)
  show ?case
  proof (cases "xs = []")
    case True
    then show ?thesis by simp
  next
    case False
    then have "last xs \<in> set xs" by simp
    then have "x \<noteq> last xs" using Cons.prems(1) by auto
    then show ?thesis using Cons False by auto
  qed
qed

lemma find_None_all: "find P xs = None \<longleftrightarrow> (\<forall>x\<in>set xs. \<not> P x)"
  by (auto simp: find_None_iff)

lemma move_left_push_line:
  "move_left s ct pl = push_line (\<lambda>num. (fst ct, num)) (rev [0..snd ct]) 0
      (behind ''L'' ct) (\<lambda>m. [m..snd ct - 1]) 1 ''L'' ''R'' s ct pl"
  by (cases ct) (simp add: move_left_def push_line_def behind_def Let_def cong: if_cong)

lemma move_right_push_line:
  "move_right s ct pl = push_line (\<lambda>num. (fst ct, num)) [snd ct..6] 6
      (behind ''R'' ct) (\<lambda>m. rev [snd ct + 1..m]) (- 1) ''R'' ''L'' s ct pl"
  by (cases ct) (simp add: move_right_def push_line_def behind_def Let_def cong: if_cong)

lemma move_forward_push_line:
  "move_forward s ct pl = push_line (\<lambda>num. (num, snd ct)) (rev [0..fst ct]) 0
      (behind ''F'' ct) (\<lambda>m. [m..fst ct - 1]) 1 ''F'' ''B'' s ct pl"
  by (cases ct) (simp add: move_forward_def push_line_def behind_def Let_def cong: if_cong)

lemma move_backward_push_line:
  "move_backward s ct pl = push_line (\<lambda>num. (num, snd ct)) [fst ct..6] 6
      (behind ''B'' ct) (\<lambda>m. rev [fst ct + 1..m]) (- 1) ''B'' ''F'' s ct pl"
  by (cases ct) (simp add: move_backward_def push_line_def behind_def Let_def cong: if_cong)

lemma push_line_result:
  fixes s :: KubaGame and pl :: KubaPlayer and bh :: "(int \<times> int) option" and dl :: string
  assumes wf: "wf_board (board s)" and ct: "in_range ct"
    and nums: "nums \<noteq> []" "distinct nums" "last nums = edge" "\<forall>n\<in>set nums. in_range (at n)"
    and bh: "\<forall>bc. bh = Some bc \<longrightarrow> in_range bc"
    and sl: "\<forall>m\<in>set nums. \<forall>n\<in>set (slide_nums m). in_range (at n) \<and> in_range (at (n + step))"
  defines "b \<equiv> board s" and "col \<equiv> get_color pl"
  defines "free \<equiv> (case bh of None \<Rightarrow> True | Some bc \<Rightarrow> get_cell b bc = Some ''X'')"
  defines "full \<equiv> (\<forall>n\<in>set nums. get_cell b (at n) \<noteq> Some ''X'')"
  defines "to_edge \<equiv> (\<forall>n\<in>set (butlast nums). get_cell b (at n) \<noteq> Some ''X'')
                       \<and> get_cell b (at edge) = Some ''X''"
  defines "ok \<equiv> free \<and> \<not> ((full \<or> to_edge) \<and> get_cell b (at edge) = Some col)
                  \<and> \<not> no_go_hit (no_go_move s) ct dl"
  shows "\<exists>tb cm. push_line at nums edge bh slide_nums step dl dinv s ct pl =
            Some (ok, s\<lparr>temp_board := Some tb, captured_marble := cm,
                         no_go_move := (if ok then (if to_edge then Some (fst (at edge), snd (at edge), dinv) else None)
                                        else no_go_move s)\<rparr>)
          \<and> wf_board tb
          \<and> (ok \<longrightarrow> get_cell tb ct = Some ''X'' \<and> cm = (if full then get_cell b (at edge) else None))"
proof (cases free)
  case False
  then obtain bc where bc: "bh = Some bc" "get_cell b bc \<noteq> Some ''X''"
    by (auto simp: free_def split: option.splits)
  obtain v where v: "get_cell b bc = Some v"
    using get_cell_Some[OF wf, of bc] bh bc(1) by (auto simp: b_def)
  have "\<not> ok" using False by (simp add: ok_def)
  moreover have "push_line at nums edge bh slide_nums step dl dinv s ct pl =
      Some (False, s\<lparr>temp_board := Some b, captured_marble := None\<rparr>)"
    using bc v by (simp add: push_line_def b_def)
  ultimately show ?thesis using wf by (auto simp: b_def intro!: exI[of _ b] exI[of _ None])
next
  case True
  have blocked: "(case bh of Some bc \<Rightarrow> do { val \<leftarrow> get_cell b bc; Some (val \<noteq> ''X'') }
                  | None \<Rightarrow> Some False) = Some False"
    using True by (auto simp: free_def split: option.splits)
  define P where "P = (\<lambda>n. get_cell b (at n) = Some ''X'')"
  define m where "m = (case find P nums of None \<Rightarrow> edge | Some n \<Rightarrow> n)"
  have nb: "next_blank b at nums edge = Some m"
    using next_blank_find[OF wf nums(4), of edge] by (simp add: m_def P_def b_def)
  have edge_in: "edge \<in> set nums" using nums(1,3) last_in_set by blast
  obtain ev where ev: "get_cell b (at edge) = Some ev"
    using get_cell_Some[OF wf, of "at edge"] nums(4) edge_in by (auto simp: b_def)
  have full_iff: "full \<longleftrightarrow> find P nums = None"
    by (simp add: full_def P_def find_None_all)
  have edge_iff: "to_edge \<longleftrightarrow> find P nums = Some edge"
    using find_last_iff[OF nums(2,1), of P] nums(3) by (simp add: to_edge_def P_def)
  have m_edge: "m = edge \<longleftrightarrow> full \<or> to_edge"
    by (auto simp: m_def full_iff edge_iff split: option.splits)
  have m_in: "m \<in> set nums"
    using edge_in by (auto simp: m_def split: option.splits dest: find_Some_iff[THEN iffD1] simp: in_set_conv_nth)
  have excl: "\<not> (full \<and> to_edge)" by (auto simp: full_iff edge_iff)
  have ev_X: "to_edge \<Longrightarrow> ev = ''X''" using ev by (simp add: to_edge_def)
  have ev_nX: "full \<Longrightarrow> ev \<noteq> ''X''" using ev edge_in by (auto simp: full_def)
  obtain tb1 where tb1: "slide b at step (slide_nums m) = Some tb1" "wf_board tb1"
    using slide_wf[OF wf, of "slide_nums m" at step] sl m_in by (auto simp: b_def)
  obtain tb2 where tb2: "set_cell tb1 ct ''X'' = Some tb2" "wf_board tb2" "get_cell tb2 ct = Some ''X''"
    using set_cell_wf[OF tb1(2) ct, of "''X''"] by auto
  show ?thesis
  proof (cases "m = edge")
    case False
    then have nf: "\<not> full" "\<not> to_edge" using m_edge by auto
    show ?thesis
    proof (cases "no_go_hit (no_go_move s) ct dl")
      case True
      have "\<not> ok" using True by (simp add: ok_def)
      moreover have "push_line at nums edge bh slide_nums step dl dinv s ct pl =
          Some (False, s\<lparr>temp_board := Some b, captured_marble := None\<rparr>)"
        using blocked nb False True by (simp add: push_line_def b_def[symmetric])
      ultimately show ?thesis using wf by (auto simp: b_def intro!: exI[of _ b] exI[of _ None])
    next
      case hit: False
      have "ok" using hit nf \<open>free\<close> by (simp add: ok_def)
      moreover have "push_line at nums edge bh slide_nums step dl dinv s ct pl =
          Some (True, s\<lparr>temp_board := Some tb2, captured_marble := None, no_go_move := None\<rparr>)"
        using blocked nb False hit tb1 tb2 by (simp add: push_line_def b_def[symmetric])
      ultimately show ?thesis using tb2 nf by (auto intro!: exI[of _ tb2] exI[of _ None])
    qed
  next
    case medge: True
    then have fe: "full \<or> to_edge" using m_edge by simp
    show ?thesis
    proof (cases "ev = col")
      case True
      have "\<not> ok" using True fe ev by (simp add: ok_def)
      moreover have "push_line at nums edge bh slide_nums step dl dinv s ct pl =
          Some (False, s\<lparr>temp_board := Some b, captured_marble := None\<rparr>)"
        using blocked nb medge ev True by (simp add: push_line_def b_def[symmetric] col_def)
      ultimately show ?thesis using wf by (auto simp: b_def intro!: exI[of _ b] exI[of _ None])
    next
      case own: False
      let ?cm = "if ev \<noteq> ''X'' then Some ev else None"
      show ?thesis
      proof (cases "no_go_hit (no_go_move s) ct dl")
        case True
        have "\<not> ok" using True by (simp add: ok_def)
        moreover have "push_line at nums edge bh slide_nums step dl dinv s ct pl =
            Some (False, s\<lparr>temp_board := Some b, captured_marble := ?cm\<rparr>)"
          using blocked nb medge ev own True by (simp add: push_line_def b_def[symmetric] col_def)
        ultimately show ?thesis using wf by (auto simp: b_def intro!: exI[of _ b] exI[of _ ?cm])
      next
        case hit: False
        have "ok" using hit own ev \<open>free\<close> by (simp add: ok_def)
        moreover have "push_line at nums edge bh slide_nums step dl dinv s ct pl =
            Some (True, s\<lparr>temp_board := Some tb2, captured_marble := ?cm,
                  no_go_move := (if ev = ''X'' then Some (fst (at edge), snd (at edge), dinv) else None)\<rparr>)"
          using blocked nb medge ev own hit tb1 tb2 by (simp add: push_line_def b_def[symmetric] col_def)
        moreover have "to_edge \<longleftrightarrow> ev = ''X''" using fe ev_X ev_nX by auto
        moreover have "full \<longleftrightarrow> ev \<noteq> ''X''" using fe ev_X ev_nX excl by auto
        ultimately show ?thesis using tb2 ev by (auto intro!: exI[of _ tb2] exI[of _ ?cm])
      qed
    qed
  qed
qed

lemma scratch_eq_refl: "scratch_eq s s"
  by (simp add: scratch_eq_def)

lemma scratch_eq_trans: "scratch_eq s s' \<Longrightarrow> scratch_eq s' s'' \<Longrightarrow> scratch_eq s s''"
  by (simp add: scratch_eq_def)

lemma scratch_eq_upd: "scratch_eq s (s\<lparr>temp_board := tb, captured_marble := cm, no_go_move := ng\<rparr>)"
  by (simp add: scratch_eq_def)

lemma upto_low_facts:
  assumes "0 \<le> c" "c \<le> (6::int)"
  shows "rev [0..c] \<noteq> []" "distinct (rev [0..c])" "last (rev [0..c]) = 0" "set (rev [0..c]) = {0..c}"
  using assms by (auto simp: last_rev upto.simps[of 0 c])

lemma upto_high_facts:
  assumes "0 \<le> c" "c \<le> (6::int)"
  shows "[c..6] \<noteq> []" "distinct [c..6]" "last [c..6] = 6" "set [c..6] = {c..6}"
  using assms by (auto simp: upto_rec2[of c 6])

lemma push_result_aux:
  fixes s :: KubaGame and pl :: KubaPlayer
  assumes wf: "wf_board (board s)" and ct: "in_range ct"
    and mv: "push d s ct pl = push_line at nums edge (behind d ct) slide_nums step d (opposite d) s ct pl"
    and ln: "line d ct = map at nums" and ec: "edge_cell d ct = at edge"
    and nums: "nums \<noteq> []" "distinct nums" "last nums = edge" "\<forall>n\<in>set nums. in_range (at n)"
    and bh: "\<forall>bc. behind d ct = Some bc \<longrightarrow> in_range bc"
    and sl: "\<forall>m\<in>set nums. \<forall>n\<in>set (slide_nums m). in_range (at n) \<and> in_range (at (n + step))"
  defines "b \<equiv> board s" and "col \<equiv> get_color pl"
  defines "ok \<equiv> legal_push b (no_go_move s) col ct d"
  shows "\<exists>tb cm. push d s ct pl =
            Some (ok, s\<lparr>temp_board := Some tb, captured_marble := cm,
                         no_go_move := (if ok then (if slides_to_edge b ct d
                                                   then Some (fst (edge_cell d ct), snd (edge_cell d ct), opposite d)
                                                   else None)
                                        else no_go_move s)\<rparr>)
          \<and> wf_board tb
          \<and> (ok \<longrightarrow> get_cell tb ct = Some ''X''
                   \<and> cm = (if line_full b ct d then get_cell b (edge_cell d ct) else None))"
proof -
  have e1: "\<And>P. list_all P (map at nums) = (\<forall>n\<in>set nums. P (at n))"
    by (simp add: list_all_iff)
  have e2: "\<And>P. list_all P (butlast (map at nums)) = (\<forall>n\<in>set (butlast nums). P (at n))"
    by (simp add: list_all_iff map_butlast[symmetric])
  show ?thesis
    unfolding ok_def b_def col_def legal_push_def free_behind_def line_full_def
      slides_to_edge_def mv ln ec e1 e2 blank_def
    by (rule push_line_result[OF wf ct nums bh sl])
qed

lemma push_result:
  fixes s :: KubaGame and pl :: KubaPlayer
  assumes wf: "wf_board (board s)" and ct: "in_range ct" and d: "d \<in> set dirs"
  defines "b \<equiv> board s" and "col \<equiv> get_color pl"
  defines "ok \<equiv> legal_push b (no_go_move s) col ct d"
  shows "\<exists>tb cm. push d s ct pl =
            Some (ok, s\<lparr>temp_board := Some tb, captured_marble := cm,
                         no_go_move := (if ok then (if slides_to_edge b ct d
                                                   then Some (fst (edge_cell d ct), snd (edge_cell d ct), opposite d)
                                                   else None)
                                        else no_go_move s)\<rparr>)
          \<and> wf_board tb
          \<and> (ok \<longrightarrow> get_cell tb ct = Some ''X''
                   \<and> cm = (if line_full b ct d then get_cell b (edge_cell d ct) else None))"
proof -
  have r: "0 \<le> fst ct" "fst ct \<le> 6" "0 \<le> snd ct" "snd ct \<le> 6"
    using ct by (auto simp: in_range_def)
  have bh: "\<forall>bc. behind d ct = Some bc \<longrightarrow> in_range bc"
    using r by (auto simp: behind_def in_range_def split: if_splits)
  consider "d = ''L''" | "d = ''R''" | "d = ''F''" | "d = ''B''"
    using d by (auto simp: dirs_def)
  then show ?thesis
  proof cases
    case 1
    show ?thesis unfolding ok_def b_def col_def
    proof (rule push_result_aux[OF wf ct _ _ _ upto_low_facts(1,2,3)[OF r(3,4)] _ bh,
          where at = "\<lambda>n. (fst ct, n)" and slide_nums = "\<lambda>m. [m..snd ct - 1]" and step = 1])
      show "push d s ct pl = push_line (\<lambda>n. (fst ct, n)) (rev [0..snd ct]) 0 (behind d ct)
              (\<lambda>m. [m..snd ct - 1]) 1 d (opposite d) s ct pl"
        by (simp add: 1 push_def move_left_push_line opposite_def)
      show "line d ct = map (\<lambda>n. (fst ct, n)) (rev [0..snd ct])" by (simp add: 1 line_def)
      show "edge_cell d ct = (fst ct, 0)" by (simp add: 1 edge_cell_def)
      show "\<forall>n\<in>set (rev [0..snd ct]). in_range (fst ct, n)"
        using r by (auto simp: in_range_def)
      show "\<forall>m\<in>set (rev [0..snd ct]). \<forall>n\<in>set [m..snd ct - 1].
               in_range (fst ct, n) \<and> in_range (fst ct, n + 1)"
        using r by (auto simp: in_range_def)
    qed
  next
    case 2
    show ?thesis unfolding ok_def b_def col_def
    proof (rule push_result_aux[OF wf ct _ _ _ upto_high_facts(1,2,3)[OF r(3,4)] _ bh,
          where at = "\<lambda>n. (fst ct, n)" and slide_nums = "\<lambda>m. rev [snd ct + 1..m]" and step = "- 1"])
      show "push d s ct pl = push_line (\<lambda>n. (fst ct, n)) [snd ct..6] 6 (behind d ct)
              (\<lambda>m. rev [snd ct + 1..m]) (- 1) d (opposite d) s ct pl"
        by (simp add: 2 push_def move_right_push_line opposite_def)
      show "line d ct = map (\<lambda>n. (fst ct, n)) [snd ct..6]" by (simp add: 2 line_def)
      show "edge_cell d ct = (fst ct, 6)" by (simp add: 2 edge_cell_def)
      show "\<forall>n\<in>set [snd ct..6]. in_range (fst ct, n)"
        using r by (auto simp: in_range_def)
      show "\<forall>m\<in>set [snd ct..6]. \<forall>n\<in>set (rev [snd ct + 1..m]).
               in_range (fst ct, n) \<and> in_range (fst ct, n + - 1)"
        using r by (auto simp: in_range_def)
    qed
  next
    case 3
    show ?thesis unfolding ok_def b_def col_def
    proof (rule push_result_aux[OF wf ct _ _ _ upto_low_facts(1,2,3)[OF r(1,2)] _ bh,
          where at = "\<lambda>n. (n, snd ct)" and slide_nums = "\<lambda>m. [m..fst ct - 1]" and step = 1])
      show "push d s ct pl = push_line (\<lambda>n. (n, snd ct)) (rev [0..fst ct]) 0 (behind d ct)
              (\<lambda>m. [m..fst ct - 1]) 1 d (opposite d) s ct pl"
        by (simp add: 3 push_def move_forward_push_line opposite_def)
      show "line d ct = map (\<lambda>n. (n, snd ct)) (rev [0..fst ct])" by (simp add: 3 line_def)
      show "edge_cell d ct = (0, snd ct)" by (simp add: 3 edge_cell_def)
      show "\<forall>n\<in>set (rev [0..fst ct]). in_range (n, snd ct)"
        using r by (auto simp: in_range_def)
      show "\<forall>m\<in>set (rev [0..fst ct]). \<forall>n\<in>set [m..fst ct - 1].
               in_range (n, snd ct) \<and> in_range (n + 1, snd ct)"
        using r by (auto simp: in_range_def)
    qed
  next
    case 4
    show ?thesis unfolding ok_def b_def col_def
    proof (rule push_result_aux[OF wf ct _ _ _ upto_high_facts(1,2,3)[OF r(1,2)] _ bh,
          where at = "\<lambda>n. (n, snd ct)" and slide_nums = "\<lambda>m. rev [fst ct + 1..m]" and step = "- 1"])
      show "push d s ct pl = push_line (\<lambda>n. (n, snd ct)) [fst ct..6] 6 (behind d ct)
              (\<lambda>m. rev [fst ct + 1..m]) (- 1) d (opposite d) s ct pl"
        by (simp add: 4 push_def move_backward_push_line opposite_def)
      show "line d ct = map (\<lambda>n. (n, snd ct)) [fst ct..6]" by (simp add: 4 line_def)
      show "edge_cell d ct = (6, snd ct)" by (simp add: 4 edge_cell_def)
      show "\<forall>n\<in>set [fst ct..6]. in_range (n, snd ct)"
        using r by (auto simp: in_range_def)
      show "\<forall>m\<in>set [fst ct..6]. \<forall>n\<in>set (rev [fst ct + 1..m]).
               in_range (n, snd ct) \<and> in_range (n + - 1, snd ct)"
        using r by (auto simp: in_range_def)
    qed
  qed
qed

lemma push_frame:
  assumes "wf_board (board s)" "in_range ct" "d \<in> set dirs"
  shows "\<exists>s'. push d s ct pl = Some (legal_push (board s) (no_go_move s) (get_color pl) ct d, s')
           \<and> scratch_eq s s'
           \<and> (\<not> legal_push (board s) (no_go_move s) (get_color pl) ct d \<longrightarrow> no_go_move s' = no_go_move s)"
proof -
  obtain tb cm where
    "push d s ct pl =
       Some (legal_push (board s) (no_go_move s) (get_color pl) ct d,
             s\<lparr>temp_board := Some tb, captured_marble := cm,
               no_go_move := (if legal_push (board s) (no_go_move s) (get_color pl) ct d
                              then (if slides_to_edge (board s) ct d
                                    then Some (fst (edge_cell d ct), snd (edge_cell d ct), opposite d)
                                    else None)
                              else no_go_move s)\<rparr>)"
    using push_result[OF assms, of pl] by blast
  then show ?thesis
    by (intro exI conjI, assumption) (simp_all add: scratch_eq_def)
qed

lemma try_cell:
  assumes wf: "wf_board (board s)" and ct: "in_range ct"
  shows "\<exists>tl tr tf tb s1 s2 s3 s4.
           move_left s ct pl = Some (tl, s1) \<and> move_right s1 ct pl = Some (tr, s2)
           \<and> move_forward s2 ct pl = Some (tf, s3) \<and> move_backward s3 ct pl = Some (tb, s4)
           \<and> scratch_eq s s4
           \<and> ((tl \<or> tr \<or> tf \<or> tb) \<longleftrightarrow> any_legal_at (board s) (no_go_move s) (get_color pl) ct)
           \<and> (\<not> (tl \<or> tr \<or> tf \<or> tb) \<longrightarrow> no_go_move s4 = no_go_move s)"
proof -
  let ?lg = "\<lambda>u d. legal_push (board u) (no_go_move u) (get_color pl) ct d"
  have mem: "''L'' \<in> set dirs" "''R'' \<in> set dirs" "''F'' \<in> set dirs" "''B'' \<in> set dirs"
    by (simp_all add: dirs_def)
  obtain s1 where 1: "move_left s ct pl = Some (?lg s ''L'', s1)" "scratch_eq s s1"
      "\<not> ?lg s ''L'' \<longrightarrow> no_go_move s1 = no_go_move s"
    using push_frame[OF wf ct mem(1), of pl] by (auto simp: push_def)
  have wf1: "wf_board (board s1)" using 1(2) wf by (simp add: scratch_eq_def)
  obtain s2 where 2: "move_right s1 ct pl = Some (?lg s1 ''R'', s2)" "scratch_eq s1 s2"
      "\<not> ?lg s1 ''R'' \<longrightarrow> no_go_move s2 = no_go_move s1"
    using push_frame[OF wf1 ct mem(2), of pl] by (auto simp: push_def)
  have wf2: "wf_board (board s2)" using 2(2) wf1 by (simp add: scratch_eq_def)
  obtain s3 where 3: "move_forward s2 ct pl = Some (?lg s2 ''F'', s3)" "scratch_eq s2 s3"
      "\<not> ?lg s2 ''F'' \<longrightarrow> no_go_move s3 = no_go_move s2"
    using push_frame[OF wf2 ct mem(3), of pl] by (auto simp: push_def)
  have wf3: "wf_board (board s3)" using 3(2) wf2 by (simp add: scratch_eq_def)
  obtain s4 where 4: "move_backward s3 ct pl = Some (?lg s3 ''B'', s4)" "scratch_eq s3 s4"
      "\<not> ?lg s3 ''B'' \<longrightarrow> no_go_move s4 = no_go_move s3"
    using push_frame[OF wf3 ct mem(4), of pl] by (auto simp: push_def)
  have b: "board s1 = board s" "board s2 = board s" "board s3 = board s"
    using 1(2) 2(2) 3(2) by (simp_all add: scratch_eq_def)
  have eq: "scratch_eq s s4"
    using 1(2) 2(2) 3(2) 4(2) by (simp add: scratch_eq_def)
  have iff: "(?lg s ''L'' \<or> ?lg s1 ''R'' \<or> ?lg s2 ''F'' \<or> ?lg s3 ''B'')
             \<longleftrightarrow> any_legal_at (board s) (no_go_move s) (get_color pl) ct"
    using 1(3) 2(3) 3(3) b by (auto simp: any_legal_at_def dirs_def)
  have keep: "\<not> (?lg s ''L'' \<or> ?lg s1 ''R'' \<or> ?lg s2 ''F'' \<or> ?lg s3 ''B'')
             \<longrightarrow> no_go_move s4 = no_go_move s"
    using 1(3) 2(3) 3(3) 4(3) by auto
  show ?thesis using 1(1) 2(1) 3(1) 4(1) eq iff keep by blast
qed

lemma scan_columns_result:
  assumes "wf_board (board s)" "0 \<le> row" "row \<le> 6" "\<forall>c\<in>set cols. 0 \<le> c \<and> c \<le> 6"
  shows "\<exists>s'. scan_columns s pl row cols cmv
                = Some (cmv \<or> legal_in_row (board s) (no_go_move s) (get_color pl) row cols, s')
           \<and> scratch_eq s s'
           \<and> (\<not> legal_in_row (board s) (no_go_move s) (get_color pl) row cols
                \<longrightarrow> no_go_move s' = no_go_move s)"
  using assms
proof (induction cols arbitrary: s)
  case Nil
  then show ?case by (simp add: legal_in_row_def scratch_eq_refl)
next
  case (Cons c cols)
  have ct: "in_range (row, c)" using Cons.prems by (simp add: in_range_def)
  obtain v where v: "get_cell (board s) (row, c) = Some v"
    using get_cell_Some[OF Cons.prems(1) ct] by blast
  show ?case
  proof (cases "v = get_color pl")
    case False
    obtain s' where s': "scan_columns s pl row cols cmv
          = Some (cmv \<or> legal_in_row (board s) (no_go_move s) (get_color pl) row cols, s')"
        "scratch_eq s s'"
        "\<not> legal_in_row (board s) (no_go_move s) (get_color pl) row cols
           \<longrightarrow> no_go_move s' = no_go_move s"
      using Cons.IH[of s] Cons.prems by auto
    show ?thesis using v False s' by (auto simp: legal_in_row_def)
  next
    case True
    obtain tl tr tf tb s1 s2 s3 s4 where t:
      "move_left s (row, c) pl = Some (tl, s1)" "move_right s1 (row, c) pl = Some (tr, s2)"
      "move_forward s2 (row, c) pl = Some (tf, s3)" "move_backward s3 (row, c) pl = Some (tb, s4)"
      "scratch_eq s s4"
      "(tl \<or> tr \<or> tf \<or> tb) \<longleftrightarrow> any_legal_at (board s) (no_go_move s) (get_color pl) (row, c)"
      "\<not> (tl \<or> tr \<or> tf \<or> tb) \<longrightarrow> no_go_move s4 = no_go_move s"
      using try_cell[OF Cons.prems(1) ct, of pl] by blast
    show ?thesis
    proof (cases "tl \<or> tr \<or> tf \<or> tb")
      case any: True
      then have "scan_columns s pl row (c # cols) cmv = Some (True, s4)"
        using v True t(1-4) by simp
      moreover have "legal_in_row (board s) (no_go_move s) (get_color pl) row (c # cols)"
        using any t(6) v True by (simp add: legal_in_row_def)
      ultimately show ?thesis using t(5) by auto
    next
      case none: False
      have b4: "board s4 = board s" "no_go_move s4 = no_go_move s"
        using t(5,7) none by (simp_all add: scratch_eq_def)
      obtain s' where s': "scan_columns s4 pl row cols cmv
            = Some (cmv \<or> legal_in_row (board s4) (no_go_move s4) (get_color pl) row cols, s')"
          "scratch_eq s4 s'"
          "\<not> legal_in_row (board s4) (no_go_move s4) (get_color pl) row cols
             \<longrightarrow> no_go_move s' = no_go_move s4"
        using Cons.IH[of s4] Cons.prems b4 by auto
      have "scan_columns s pl row (c # cols) cmv = scan_columns s4 pl row cols cmv"
        using v True t(1-4) none by simp
      moreover have "legal_in_row (board s) (no_go_move s) (get_color pl) row (c # cols)
           \<longleftrightarrow> legal_in_row (board s) (no_go_move s) (get_color pl) row cols"
        using none t(6) by (simp add: legal_in_row_def)
      ultimately show ?thesis
        using s' b4 scratch_eq_trans[OF t(5) s'(2)] by auto
    qed
  qed
qed

lemma scan_rows_result:
  assumes "wf_board (board s)" "\<forall>r\<in>set rows. 0 \<le> r \<and> r \<le> 6"
  shows "\<exists>s'. scan_rows s pl rows cmv
                = Some (cmv \<or> list_ex (\<lambda>r. legal_in_row (board s) (no_go_move s) (get_color pl) r [0..6]) rows, s')
           \<and> scratch_eq s s'"
  using assms
proof (induction rows arbitrary: s cmv)
  case Nil
  then show ?case by (simp add: scratch_eq_refl)
next
  case (Cons r rows)
  let ?row = "legal_in_row (board s) (no_go_move s) (get_color pl) r [0..6]"
  have cols: "\<forall>c\<in>set [0..6]. 0 \<le> c \<and> c \<le> (6::int)" by simp
  obtain s1 where s1: "scan_columns s pl r [0..6] cmv = Some (cmv \<or> ?row, s1)"
      "scratch_eq s s1" "\<not> ?row \<longrightarrow> no_go_move s1 = no_go_move s"
    using scan_columns_result[OF Cons.prems(1) _ _ cols, of r pl cmv] Cons.prems(2) by auto
  have wf1: "wf_board (board s1)" "board s1 = board s"
    using s1(2) Cons.prems(1) by (simp_all add: scratch_eq_def)
  obtain s' where s': "scan_rows s1 pl rows (cmv \<or> ?row)
        = Some ((cmv \<or> ?row) \<or> list_ex (\<lambda>r. legal_in_row (board s1) (no_go_move s1) (get_color pl) r [0..6]) rows, s')"
      "scratch_eq s1 s'"
    using Cons.IH[OF wf1(1), of "cmv \<or> ?row"] Cons.prems(2) by auto
  have "scan_rows s pl (r # rows) cmv = scan_rows s1 pl rows (cmv \<or> ?row)"
    using s1(1) by simp
  then show ?case
    using s' s1(3) wf1(2) scratch_eq_trans[OF s1(2) s'(2)] by (cases ?row) auto
qed

lemma dispatch_push:
  "(if d = ''L'' then map_option Some (move_left s ct pl)
    else if d = ''R'' then map_option Some (move_right s ct pl)
    else if d = ''F'' then map_option Some (move_forward s ct pl)
    else if d = ''B'' then map_option Some (move_backward s ct pl)
    else Some None)
   = (if d \<in> set dirs then map_option Some (push d s ct pl) else Some None)"
  by (simp add: push_def dirs_def)

lemma turn_update_same: "turn (u::KubaGame) = t \<Longrightarrow> u\<lparr>turn := t\<rparr> = u"
  by (cases u) simp

lemma update_marbles_frame:
  "temp_board (update_marbles u v i) = temp_board u"
  "board (update_marbles u v i) = board u"
  "captured_marble (update_marbles u v i) = captured_marble u"
  "no_go_move (update_marbles u v i) = no_go_move u"
  "winner (update_marbles u v i) = winner u"
  "turn (update_marbles u v i) = turn u"
  by (simp_all add: update_marbles_def put_player_def Let_def)

lemma update_marbles_counts:
  assumes "players u = players s" "red u = red s" "white u = white s" "black u = black s"
  shows "players (update_marbles u v i) = players (update_marbles s v i)"
    "red (update_marbles u v i) = red (update_marbles s v i)"
    "white (update_marbles u v i) = white (update_marbles s v i)"
    "black (update_marbles u v i) = black (update_marbles s v i)"
  using assms by (simp_all add: update_marbles_def put_player_def player_at_def Let_def)

lemma update_marbles_names:
  "get_name (fst (players (update_marbles u v i))) = get_name (fst (players u))"
  "get_name (snd (players (update_marbles u v i))) = get_name (snd (players u))"
  by (simp_all add: update_marbles_def put_player_def player_at_def add_red_def
      add_opponent_marbles_def Let_def)

lemma commit_result:
  fixes u :: KubaGame and i :: nat
  assumes tb: "temp_board u = Some tb"
  defines "w \<equiv> (case captured_marble u of None \<Rightarrow> u | Some v \<Rightarrow> update_marbles u v i)"
  shows "\<exists>s'. commit u i p = Some (True, s')
          \<and> board s' = tb \<and> temp_board s' = Some tb
          \<and> captured_marble s' = captured_marble u \<and> no_go_move s' = no_go_move u
          \<and> players s' = players w \<and> red s' = red w \<and> white s' = white w \<and> black s' = black w
          \<and> winner s' = (if 8 \<le> get_opponent_marbles (player_at s' i) \<or> 7 \<le> get_red (player_at s' i)
                          then Some p else winner u)
          \<and> turn s' = Some (get_name (if i = 0 then snd (players u) else fst (players u)))"
proof -
  have w: "temp_board w = Some tb" "captured_marble w = captured_marble u"
    "no_go_move w = no_go_move u" "winner w = winner u"
    "get_name (fst (players w)) = get_name (fst (players u))"
    "get_name (snd (players w)) = get_name (snd (players u))"
    using tb by (simp_all add: w_def update_marbles_frame update_marbles_names split: option.splits)
  show ?thesis
    unfolding commit_def Let_def w_def[symmetric] using w by (simp add: player_at_def)
qed

lemma make_move_cases [consumes 1, case_names guard stuck rejected pushed]:
  fixes s :: KubaGame
  assumes wf: "wf_board (board s)"
  obtains
    (guard) "make_move s p ct d = Some (False, if turn s = None then s\<lparr>turn := Some p\<rparr> else s)"
      "(turn s \<noteq> None \<and> turn s \<noteq> Some p) \<or> winner s \<noteq> None \<or> \<not> in_range ct
        \<or> lookup_player s p = None
        \<or> (\<exists>cur oth i. lookup_player s p = Some (cur, oth, i)
              \<and> get_cell (board s) ct \<noteq> Some (get_color cur))"
  | (stuck) cur oth i s1 where
      "lookup_player s p = Some (cur, oth, i)" "turn s = None \<or> turn s = Some p"
      "winner s = None" "in_range ct" "get_cell (board s) ct = Some (get_color cur)"
      "\<not> any_legal_push (board s) (no_go_move s) (get_color cur)"
      "scratch_eq s s1" "no_go_move s1 = no_go_move s"
      "make_move s p ct d = Some (False, s1\<lparr>turn := Some p, winner := Some (get_name oth)\<rparr>)"
  | (rejected) cur oth i s1 where
      "lookup_player s p = Some (cur, oth, i)" "turn s = None \<or> turn s = Some p"
      "winner s = None" "in_range ct" "get_cell (board s) ct = Some (get_color cur)"
      "any_legal_push (board s) (no_go_move s) (get_color cur)"
      "d \<notin> set dirs \<or> \<not> legal_push (board s) (no_go_move s) (get_color cur) ct d"
      "scratch_eq s s1" "no_go_move s1 = no_go_move s"
      "make_move s p ct d = Some (False, s1\<lparr>turn := Some p\<rparr>)"
  | (pushed) cur oth i tb cm s' where
      "lookup_player s p = Some (cur, oth, i)" "turn s = None \<or> turn s = Some p"
      "winner s = None" "in_range ct" "get_cell (board s) ct = Some (get_color cur)"
      "any_legal_push (board s) (no_go_move s) (get_color cur)"
      "d \<in> set dirs" "legal_push (board s) (no_go_move s) (get_color cur) ct d"
      "wf_board tb" "get_cell tb ct = Some ''X''"
      "cm = (if line_full (board s) ct d then get_cell (board s) (edge_cell d ct) else None)"
      "make_move s p ct d = Some (True, s')"
      "board s' = tb" "temp_board s' = Some tb" "captured_marble s' = cm"
      "no_go_move s' = (if slides_to_edge (board s) ct d
                        then Some (fst (edge_cell d ct), snd (edge_cell d ct), opposite d) else None)"
      "turn s' = Some (get_name oth)"
      "players s' = players (case cm of None \<Rightarrow> s | Some v \<Rightarrow> update_marbles s v i)"
      "red s' = red (case cm of None \<Rightarrow> s | Some v \<Rightarrow> update_marbles s v i)"
      "white s' = white (case cm of None \<Rightarrow> s | Some v \<Rightarrow> update_marbles s v i)"
      "black s' = black (case cm of None \<Rightarrow> s | Some v \<Rightarrow> update_marbles s v i)"
      "winner s' = (if 8 \<le> get_opponent_marbles (player_at s' i) \<or> 7 \<le> get_red (player_at s' i)
                    then Some p else None)"
proof -
  define s0 where "s0 = (if turn s = None then s\<lparr>turn := Some p\<rparr> else s)"
  have s0: "scratch_eq s (s0\<lparr>turn := turn s\<rparr>)" "board s0 = board s" "no_go_move s0 = no_go_move s"
    "players s0 = players s" "winner s0 = winner s" "lookup_player s0 p = lookup_player s p"
    by (simp_all add: s0_def scratch_eq_def lookup_player_def)
  show thesis
  proof (cases "(turn s \<noteq> None \<and> turn s \<noteq> Some p) \<or> winner s \<noteq> None \<or> \<not> in_range ct
        \<or> lookup_player s p = None
        \<or> (\<exists>cur oth i. lookup_player s p = Some (cur, oth, i)
              \<and> get_cell (board s) ct \<noteq> Some (get_color cur))")
    case True
    have "make_move s p ct d = Some (False, s0)"
    proof (cases "(turn s \<noteq> None \<and> turn s \<noteq> Some p) \<or> winner s \<noteq> None \<or> \<not> in_range ct
        \<or> lookup_player s p = None")
      case True
      then show ?thesis
        by (auto simp: make_move_def s0_def in_range_def lookup_player_def)
    next
      case False
      then obtain cur oth i where l: "lookup_player s p = Some (cur, oth, i)"
          "get_cell (board s) ct \<noteq> Some (get_color cur)"
        using True by auto
      obtain v where v: "get_cell (board s) ct = Some v"
        using get_cell_Some[OF wf, of ct] False by auto
      show ?thesis using False l v s0(6)
        by (auto simp: make_move_def s0_def[symmetric] in_range_def get_marble_def s0(2))
    qed
    then show ?thesis using True guard by (simp add: s0_def)
  next
    case False
    then obtain cur oth i where g: "lookup_player s p = Some (cur, oth, i)"
        "turn s = None \<or> turn s = Some p" "winner s = None" "in_range ct"
        "get_cell (board s) ct = Some (get_color cur)"
      by (cases "lookup_player s p") auto
    have t0: "turn s0 = Some p" using g(2) by (auto simp: s0_def)
    have wf0: "wf_board (board s0)" using wf s0(2) by simp
    let ?any = "any_legal_push (board s) (no_go_move s) (get_color cur)"
    obtain s1 where s1: "scan_rows s0 cur [0..6] False = Some (?any, s1)" "scratch_eq s0 s1"
      using scan_rows_result[OF wf0, of "[0..6]" cur False] s0(2,3)
      by (auto simp: any_legal_push_def)
    define s2 where "s2 = s1\<lparr>no_go_move := no_go_move s\<rparr>"
    have s2: "scratch_eq s0 s2" "no_go_move s2 = no_go_move s" "board s2 = board s"
      "turn s2 = Some p" "players s2 = players s" "winner s2 = None"
      "red s2 = red s" "white s2 = white s" "black s2 = black s"
      using s1(2) s0 t0 g(3) by (simp_all add: s2_def scratch_eq_def s0_def)
    have mm: "make_move s p ct d =
        (if \<not> ?any then Some (False, s2\<lparr>winner := Some (get_name oth)\<rparr>)
         else do {
           res \<leftarrow> (if d \<in> set dirs then map_option Some (push d s2 ct cur) else Some None);
           case res of
             None \<Rightarrow> Some (False, s2)
           | Some (temp, self) \<Rightarrow>
               if \<not> temp then Some (False, self)
               else commit self i p
         })"
      using g t0 s0(2,3,5,6) s1(1)
      by (simp add: make_move_def s0_def[symmetric] in_range_def get_marble_def s2_def Let_def
          dispatch_push commit_def cong: if_cong)
    define s1' where "s1' = s2\<lparr>turn := turn s\<rparr>"
    have s1': "scratch_eq s s1'" "no_go_move s1' = no_go_move s" "s1'\<lparr>turn := Some p\<rparr> = s2"
      using s2(2-9) g(3) turn_update_same[OF s2(4)] by (simp_all add: s1'_def scratch_eq_def)
    show ?thesis
    proof (cases ?any)
      case none: False
      have "make_move s p ct d = Some (False, s1'\<lparr>turn := Some p, winner := Some (get_name oth)\<rparr>)"
        using mm none s1'(3) by simp
      then show ?thesis using stuck[OF g none s1'(1,2)] by blast
    next
      case any: True
      show ?thesis
      proof (cases "d \<in> set dirs")
        case False
        have "make_move s p ct d = Some (False, s1'\<lparr>turn := Some p\<rparr>)"
          using mm any False s1'(3) by simp
        then show ?thesis using rejected[OF g any _ s1'(1,2)] False by blast
      next
        case d: True
        have wf2: "wf_board (board s2)" using wf s2(3) by simp
        let ?ok = "legal_push (board s) (no_go_move s) (get_color cur) ct d"
        let ?ng = "if ?ok then (if slides_to_edge (board s) ct d
                                then Some (fst (edge_cell d ct), snd (edge_cell d ct), opposite d)
                                else None)
                   else no_go_move s"
        obtain tb cm where pr:
          "push d s2 ct cur =
             Some (?ok, s2\<lparr>temp_board := Some tb, captured_marble := cm, no_go_move := ?ng\<rparr>)"
          "wf_board tb"
          "?ok \<longrightarrow> get_cell tb ct = Some ''X''
              \<and> cm = (if line_full (board s) ct d then get_cell (board s) (edge_cell d ct) else None)"
          using push_result[OF wf2 g(4) d, of cur] unfolding s2(2,3) by blast
        show ?thesis
        proof (cases ?ok)
          case False
          define s3 where "s3 = s1'\<lparr>temp_board := Some tb, captured_marble := cm\<rparr>"
          have "s2\<lparr>temp_board := Some tb, captured_marble := cm, no_go_move := no_go_move s\<rparr>
                = s3\<lparr>turn := Some p\<rparr>"
            using s2(2,4) by (cases s2) (simp add: s3_def s1'_def)
          then have "make_move s p ct d = Some (False, s3\<lparr>turn := Some p\<rparr>)"
            using mm any d pr(1) False by simp
          moreover have "scratch_eq s s3" "no_go_move s3 = no_go_move s"
            using s1'(1,2) by (simp_all add: s3_def scratch_eq_def)
          ultimately show ?thesis using rejected[OF g any _ _ _, of s3] False by blast
        next
          case ok: True
          define s3 where "s3 = s2\<lparr>temp_board := Some tb, captured_marble := cm, no_go_move := ?ng\<rparr>"
          have f3: "temp_board s3 = Some tb" "captured_marble s3 = cm" "no_go_move s3 = ?ng"
            "players s3 = players s" "red s3 = red s" "white s3 = white s" "black s3 = black s"
            "winner s3 = None"
            using s2(2-9) by (simp_all add: s3_def)
          have cnt: "players (case cm of None \<Rightarrow> s3 | Some v \<Rightarrow> update_marbles s3 v i)
                      = players (case cm of None \<Rightarrow> s | Some v \<Rightarrow> update_marbles s v i)"
            "red (case cm of None \<Rightarrow> s3 | Some v \<Rightarrow> update_marbles s3 v i)
                      = red (case cm of None \<Rightarrow> s | Some v \<Rightarrow> update_marbles s v i)"
            "white (case cm of None \<Rightarrow> s3 | Some v \<Rightarrow> update_marbles s3 v i)
                      = white (case cm of None \<Rightarrow> s | Some v \<Rightarrow> update_marbles s v i)"
            "black (case cm of None \<Rightarrow> s3 | Some v \<Rightarrow> update_marbles s3 v i)
                      = black (case cm of None \<Rightarrow> s | Some v \<Rightarrow> update_marbles s v i)"
            using f3(4-7) update_marbles_counts[OF f3(4-7)] by (simp_all split: option.splits)
          have oth: "get_name (if i = 0 then snd (players s3) else fst (players s3)) = get_name oth"
            using g(1) f3(4) by (auto simp: lookup_player_def split: if_splits)
          obtain s' where s': "commit s3 i p = Some (True, s')"
            "board s' = tb" "temp_board s' = Some tb" "captured_marble s' = cm"
            "no_go_move s' = ?ng"
            "players s' = players (case cm of None \<Rightarrow> s | Some v \<Rightarrow> update_marbles s v i)"
            "red s' = red (case cm of None \<Rightarrow> s | Some v \<Rightarrow> update_marbles s v i)"
            "white s' = white (case cm of None \<Rightarrow> s | Some v \<Rightarrow> update_marbles s v i)"
            "black s' = black (case cm of None \<Rightarrow> s | Some v \<Rightarrow> update_marbles s v i)"
            "winner s' = (if 8 \<le> get_opponent_marbles (player_at s' i) \<or> 7 \<le> get_red (player_at s' i)
                          then Some p else None)"
            "turn s' = Some (get_name oth)"
            using commit_result[OF f3(1), of i p] unfolding f3(2,3,8) cnt oth by blast
          have mk: "make_move s p ct d = Some (True, s')"
            using mm any d pr(1) ok s'(1) by (simp add: s3_def)
          show ?thesis
            using pushed[OF g any d ok pr(2) _ _ mk s'(2,3,4) _ s'(11) s'(6-10)] pr(3) ok s'(5)
            by simp
        qed
      qed
    qed
  qed
qed

lemma has_legal_push_iff:
  assumes wf: "wf_board (board s)"
  shows "has_legal_push s pl \<longleftrightarrow> any_legal_push (board s) (no_go_move s) (get_color pl)"
proof -
  have 1: "map_option fst (push d s (r, c) pl) = Some True
           \<longleftrightarrow> legal_push (board s) (no_go_move s) (get_color pl) (r, c) d"
    if "r \<in> set [0..6]" "c \<in> set [0..6]" "d \<in> set dirs" for r c d
  proof -
    have "in_range (r, c)" using that(1,2) by (simp add: in_range_def)
    from push_frame[OF wf this that(3), of pl] show ?thesis by auto
  qed
  show ?thesis
    unfolding has_legal_push_def any_legal_push_def legal_in_row_def any_legal_at_def list_ex_iff
    using 1 by blast
qed

lemma edge_cell_in_line:
  assumes "in_range ct" "d \<in> set dirs"
  shows "edge_cell d ct \<in> set (line d ct)"
  using assms by (auto simp: in_range_def dirs_def edge_cell_def line_def)

lemma line_full_not_slides:
  assumes "in_range ct" "d \<in> set dirs" "line_full b ct d"
  shows "\<not> slides_to_edge b ct d"
  using edge_cell_in_line[OF assms(1,2)] assms(3)
  by (auto simp: line_full_def slides_to_edge_def list_all_iff)

lemma legal_push_any:
  assumes "in_range ct" "d \<in> set dirs" "get_cell b ct = Some col" "legal_push b ng col ct d"
  shows "any_legal_push b ng col"
proof -
  have "fst ct \<in> set [0..6]" "snd ct \<in> set [0..6]"
    using assms(1) by (auto simp: in_range_def)
  then show ?thesis
    unfolding any_legal_push_def legal_in_row_def any_legal_at_def list_ex_iff
    using assms(2,3,4) by (metis prod.collapse)
qed

lemma legal_push_no_go:
  "legal_push b ng col ct d \<longleftrightarrow> legal_push b None col ct d \<and> \<not> no_go_hit ng ct d"
  by (auto simp: legal_push_def no_go_hit_def)

lemma make_move_accepts:
  assumes wf: "wf_board (board s)"
  shows "map_option fst (make_move s p ct d) =
     Some ((turn s = None \<or> turn s = Some p) \<and> winner s = None \<and> in_range ct \<and> d \<in> set dirs
           \<and> (case lookup_player s p of None \<Rightarrow> False
               | Some (cur, oth, i) \<Rightarrow> get_cell (board s) ct = Some (get_color cur)
                    \<and> legal_push (board s) (no_go_move s) (get_color cur) ct d))"
  using wf
proof (cases rule: make_move_cases[where p = p and ct = ct and d = d])
  case guard
  then show ?thesis by (auto split: option.splits)
next
  case (stuck cur oth i s1)
  then show ?thesis using legal_push_any[OF stuck(4) _ stuck(5)] by auto
next
  case (rejected cur oth i s1)
  then show ?thesis by auto
next
  case (pushed cur oth i tb cm s')
  then show ?thesis by auto
qed

lemma reachable_wf: "reachable s \<Longrightarrow> wf_board (board s)"
proof (induction rule: reachable.induct)
  case (init pc_tup_1 pc_tup_2)
  show ?case by (simp add: KubaGame_init_def initial_board_def wf_board_def)
next
  case (step s p r c d ok s')
  from step.IH show ?case
  proof (cases rule: make_move_cases[where p = p and ct = "(r, c)" and d = d])
    case guard
    then show ?thesis using step by (auto split: if_splits)
  next
    case (stuck cur oth i s1)
    then show ?thesis using step by (auto simp: scratch_eq_def)
  next
    case (rejected cur oth i s1)
    then show ?thesis using step by (auto simp: scratch_eq_def)
  next
    case (pushed cur oth i tb cm s'')
    then show ?thesis using step by auto
  qed
qed

section \<open>The initial position\<close>

text \<open>
  C2: the claim is that the board built by the constructor holds 13 red, 8 white and 8
  black marbles, in agreement with \<open>get_marble_count() = (8, 8, 13)\<close>. The board literal
  has a ninth white marble, at row 2, column 6: it holds 9 white marbles while the tally
  says 8.
\<close>

theorem C2_initial_board_counts:
  "marbles_on_board (board (KubaGame_init pc_tup_1 pc_tup_2)) ''R'' = 13
   \<and> marbles_on_board (board (KubaGame_init pc_tup_1 pc_tup_2)) ''W'' = 9
   \<and> marbles_on_board (board (KubaGame_init pc_tup_1 pc_tup_2)) ''B'' = 8
   \<and> get_cell (board (KubaGame_init pc_tup_1 pc_tup_2)) (2, 6) = Some ''W''
   \<and> get_cell (board (KubaGame_init pc_tup_1 pc_tup_2)) (4, 0) = Some ''X''
   \<and> get_marble_count (KubaGame_init pc_tup_1 pc_tup_2) = (8, 8, 13)"
  by (simp add: KubaGame_init_def initial_board_def marbles_on_board_def get_marble_count_def
      get_cell_def item_def)

text \<open>
  C5: the claim is that the marbles on the board always number 29 minus the captures
  recorded. After no move at all the fresh board holds 30 marbles and no capture is
  recorded; four successful moves later, none of them a capture, it still holds 30.
\<close>

theorem C5_fresh_game_total:
  "total_on_board (board (KubaGame_init pc_tup_1 pc_tup_2)) = 30
   \<and> total_captured (KubaGame_init pc_tup_1 pc_tup_2) = 0
   \<and> after_moves new_game four_moves = Some four_moves_game
   \<and> total_on_board (board four_moves_game) = 30
   \<and> total_captured four_moves_game = 0"
proof -
  have "total_on_board (board (KubaGame_init pc_tup_1 pc_tup_2)) = 30"
    "total_captured (KubaGame_init pc_tup_1 pc_tup_2) = 0"
    by (simp_all add: KubaGame_init_def KubaPlayer_init_def initial_board_def total_on_board_def
        marbles_on_board_def total_captured_def)
  moreover have "after_moves new_game four_moves = Some four_moves_game"
    "total_on_board (board four_moves_game) = 30" "total_captured four_moves_game = 0"
    by code_simp+
  ultimately show ?thesis by simp
qed

section \<open>The first call\<close>

text \<open>
  C3: the claim is that a first call with a name that is no player's is rejected and does
  not fix the turn. The call is rejected, but the assignment of \<open>_turn\<close> comes before the
  name is looked up: the turn is left at the unknown name, and from then on the calls of
  both players are rejected as out of turn.
\<close>

theorem C3_unknown_name_fixes_turn:
  "make_move new_game ''Zed'' (0, 0) ''R'' = Some (False, new_game\<lparr>turn := Some ''Zed''\<rparr>)
   \<and> lookup_player new_game ''Zed'' = None
   \<and> make_move (new_game\<lparr>turn := Some ''Zed''\<rparr>) ''PlayerA'' (6, 5) ''F''
       = Some (False, new_game\<lparr>turn := Some ''Zed''\<rparr>)
   \<and> make_move (new_game\<lparr>turn := Some ''Zed''\<rparr>) ''PlayerB'' (0, 5) ''B''
       = Some (False, new_game\<lparr>turn := Some ''Zed''\<rparr>)"
  by (simp add: make_move_def new_game_def KubaGame_init_def KubaPlayer_init_def
      lookup_player_def)

section \<open>The no-go move\<close>

text \<open>
  C1, as stated, fails on the cell the no-go move names. Four moves into a game PlayerA
  pushes its marble at (2, 0) backward: nothing leaves the board, the cell emptied by the
  push is (2, 0), and the line of four marbles slides into the blank edge cell (6, 0). The
  claim has the no-go move name the newly emptied cell; the method records (6, 0), the
  cell where the front marble has come to lie and from which the opposite push would undo
  the move.
\<close>

theorem C1_counterexample:
  "make_move four_moves_game ''PlayerA'' (2, 0) ''B'' = Some (True, edge_push_game)
   \<and> captured_marble edge_push_game = None
   \<and> get_cell (board four_moves_game) (2, 0) = Some ''W''
   \<and> get_cell (board edge_push_game) (2, 0) = Some ''X''
   \<and> get_cell (board four_moves_game) (6, 0) = Some ''X''
   \<and> get_cell (board edge_push_game) (6, 0) = Some ''B''
   \<and> no_go_move edge_push_game = Some (6, 0, ''F'')
   \<and> no_go_move edge_push_game \<noteq> Some (2, 0, ''F'')"
  by code_simp

text \<open>
  C1, amended: after a call of make\_move that returns True, when the first blank cell
  of the line is the cell on the far edge (the line of marbles slides by one cell and its
  front marble comes to lie on the edge) the no-go move is set, to that edge cell with
  the opposite direction, and no marble is captured; when the line has no blank cell, the
  marble of the edge cell leaves the board and is the captured marble, and the no-go move
  is \<open>None\<close>. A marble is captured in no other case. Nothing is said here of the no-go
  move after a push whose line has a blank cell before the edge cell.
\<close>

theorem C1_no_go_after_push:
  assumes "wf_board (board s)" and "make_move s p ct d = Some (True, s')"
  shows "(slides_to_edge (board s) ct d \<longrightarrow>
            no_go_move s' = Some (fst (edge_cell d ct), snd (edge_cell d ct), opposite d)
            \<and> captured_marble s' = None)
         \<and> (line_full (board s) ct d \<longrightarrow>
            no_go_move s' = None \<and> captured_marble s' = get_cell (board s) (edge_cell d ct)
            \<and> captured_marble s' \<noteq> None \<and> captured_marble s' \<noteq> Some ''X'')
         \<and> (captured_marble s' \<noteq> None \<longrightarrow> line_full (board s) ct d)"
  using assms(1)
proof (cases rule: make_move_cases[where p = p and ct = ct and d = d])
  case (pushed cur oth i tb cm s'')
  have eq: "s'' = s'" using pushed(12) assms(2) by simp
  have ns: "line_full (board s) ct d \<Longrightarrow> \<not> slides_to_edge (board s) ct d"
    using line_full_not_slides[OF pushed(4) pushed(7)] by simp
  have mem: "edge_cell d ct \<in> set (line d ct)" using edge_cell_in_line[OF pushed(4,7)] .
  have inr: "in_range (edge_cell d ct)"
    using pushed(4,7) by (auto simp: in_range_def edge_cell_def dirs_def)
  obtain v where v: "get_cell (board s) (edge_cell d ct) = Some v"
    using get_cell_Some[OF assms(1) inr] by blast
  have vx: "line_full (board s) ct d \<Longrightarrow> v \<noteq> ''X''"
    using mem v by (auto simp: line_full_def list_all_iff blank_def)
  have ng: "no_go_move s' =
      (if slides_to_edge (board s) ct d
       then Some (fst (edge_cell d ct), snd (edge_cell d ct), opposite d) else None)"
    using pushed(16) eq by simp
  have cm: "captured_marble s' =
      (if line_full (board s) ct d then get_cell (board s) (edge_cell d ct) else None)"
    using pushed(15,11) eq by simp
  show ?thesis using ng cm ns v vx by auto
qed (use assms(2) in auto)

text \<open>
  The theorem at PlayerA's push of (2, 0) backward, which slides four marbles into the
  blank cell (6, 0), and at a push that moves a red marble off the board.
\<close>

theorem C1_no_go_after_push_witness:
  "wf_board (board four_moves_game)
   \<and> make_move four_moves_game ''PlayerA'' (2, 0) ''B'' = Some (True, edge_push_game)
   \<and> slides_to_edge (board four_moves_game) (2, 0) ''B''
   \<and> no_go_move edge_push_game = Some (6, 0, ''F'')
   \<and> captured_marble edge_push_game = None
   \<and> wf_board (board red_six_game)
   \<and> map_option fst (make_move red_six_game ''PlayerA'' (2, 3) ''L'') = Some True
   \<and> line_full (board red_six_game) (2, 3) ''L''
   \<and> map_option (no_go_move \<circ> snd) (make_move red_six_game ''PlayerA'' (2, 3) ''L'') = Some None
   \<and> map_option (captured_marble \<circ> snd) (make_move red_six_game ''PlayerA'' (2, 3) ''L'')
        = Some (Some ''R'')"
proof -
  have h1: "wf_board (board four_moves_game)" by code_simp
  have h2: "make_move four_moves_game ''PlayerA'' (2, 0) ''B'' = Some (True, edge_push_game)"
    by code_simp
  have h3: "slides_to_edge (board four_moves_game) (2, 0) ''B''" by code_simp
  note t = C1_no_go_after_push[OF h1 h2]
  from t h3 have a: "no_go_move edge_push_game
      = Some (fst (edge_cell ''B'' (2, 0)), snd (edge_cell ''B'' (2, 0)), opposite ''B'')"
    and b: "captured_marble edge_push_game = None" by blast+
  have a': "no_go_move edge_push_game = Some (6, 0, ''F'')"
    using a by (simp add: edge_cell_def opposite_def)
  have k1: "wf_board (board red_six_game)" by code_simp
  have k3: "line_full (board red_six_game) (2, 3) ''L''" by code_simp
  have k4: "get_cell (board red_six_game) (edge_cell ''L'' (2, 3)) = Some ''R''" by code_simp
  have k5: "map_option fst (make_move red_six_game ''PlayerA'' (2, 3) ''L'') = Some True"
    by code_simp
  then obtain s' where k2: "make_move red_six_game ''PlayerA'' (2, 3) ''L'' = Some (True, s')"
    by (cases "make_move red_six_game ''PlayerA'' (2, 3) ''L''") auto
  note u = C1_no_go_after_push[OF k1 k2]
  from u k3 k4 have c: "no_go_move s' = None" and e: "captured_marble s' = Some ''R''"
    by simp_all
  show ?thesis using h1 h2 h3 a' b k1 k2 k3 c e by simp
qed

section \<open>Rejected calls\<close>

text \<open>
  C4, as stated, fails on two rejected calls. The first call of a game is by PlayerA on
  the blank cell (3, 0): it returns False and the turn, unset before, is PlayerA's. In the
  position where white has no legal push, PlayerA's call on its marble (0, 0) returns
  False and the winner, unset before, is PlayerB.
\<close>

theorem C4_counterexample:
  "map_option fst (make_move new_game ''PlayerA'' (3, 0) ''R'') = Some False
   \<and> turn new_game = None
   \<and> map_option (turn \<circ> snd) (make_move new_game ''PlayerA'' (3, 0) ''R'') = Some (Some ''PlayerA'')
   \<and> map_option fst (make_move stuck_game ''PlayerA'' (0, 0) ''R'') = Some False
   \<and> winner stuck_game = None
   \<and> map_option (winner \<circ> snd) (make_move stuck_game ''PlayerA'' (0, 0) ''R'') = Some (Some ''PlayerB'')"
  by code_simp

text \<open>
  C4, amended: a call of make\_move that returns False leaves the board, the three
  tallies, both players' counters and the no-go move as they were. The turn stays as it
  was when it was set; when it was unset and the caller is one of the two players, it
  becomes the caller's. The winner changes only when the caller has no legal push: it
  was unset and becomes the name of the other player.
\<close>

theorem C4_rejected_call_frame:
  assumes "wf_board (board s)" and "make_move s p ct d = Some (False, s')"
  shows "board s' = board s \<and> red s' = red s \<and> white s' = white s \<and> black s' = black s
         \<and> players s' = players s \<and> no_go_move s' = no_go_move s
         \<and> (turn s \<noteq> None \<longrightarrow> turn s' = turn s)
         \<and> (turn s = None \<and> lookup_player s p \<noteq> None \<longrightarrow> turn s' = Some p)
         \<and> (winner s' \<noteq> winner s \<longrightarrow>
              (\<exists>cur oth i. lookup_player s p = Some (cur, oth, i) \<and> \<not> has_legal_push s cur
                 \<and> winner s = None \<and> winner s' = Some (get_name oth)))"
  using assms(1)
proof (cases rule: make_move_cases[where p = p and ct = ct and d = d])
  case guard
  then show ?thesis using assms(2) by (auto split: if_splits)
next
  case (stuck cur oth i s1)
  then show ?thesis
    using assms has_legal_push_iff[OF assms(1), of cur] by (auto simp: scratch_eq_def)
next
  case (rejected cur oth i s1)
  then show ?thesis using assms(2) by (auto simp: scratch_eq_def)
next
  case (pushed cur oth i tb cm s'')
  then show ?thesis using assms(2) by simp
qed

text \<open>
  The theorem at PlayerB's call of the no-go move (6, 0) forward after PlayerA's fifth
  move: the call returns False and the object is as it was.
\<close>

theorem C4_rejected_call_frame_witness:
  "wf_board (board edge_push_game)
   \<and> make_move edge_push_game ''PlayerB'' (6, 0) ''F'' = Some (False, edge_push_game)
   \<and> turn edge_push_game = Some ''PlayerB''
   \<and> no_go_move edge_push_game = Some (6, 0, ''F'')"
proof -
  have h1: "wf_board (board edge_push_game)" by code_simp
  have h2: "make_move edge_push_game ''PlayerB'' (6, 0) ''F'' = Some (False, edge_push_game)"
    by code_simp
  show ?thesis
    using C4_rejected_call_frame[OF h1 h2] h1 h2 by (simp add: edge_push_game_def)
qed

section \<open>The repetition rule\<close>

text \<open>
  C6: the claim is the repetition rule, that a player may not undo the push the opponent
  has just made. Three moves into a game PlayerA pushes its marble at (1, 0) backward:
  the four marbles of column 0 slide down by one cell, nothing is captured and the vacated
  cell (1, 0) is blank. Because the blank cell the line slides into, (5, 0), is not the
  edge cell, the method clears the no-go move ("If blank cell exists below, no-go move
  will not be needed"). PlayerB's next call, the push of (5, 0) forward, is then accepted
  and puts every marble back: the board is again the board before PlayerA's move, which
  the comment "If move undoes last move by opponent, return False" and the docstrings of
  the move methods exclude.
\<close>

theorem C6_reversal_accepted:
  "after_moves new_game three_moves = Some three_moves_game
   \<and> make_move three_moves_game ''PlayerA'' (1, 0) ''B'' = Some (True, stopped_push_game)
   \<and> captured_marble stopped_push_game = None
   \<and> get_cell (board stopped_push_game) (1, 0) = Some ''X''
   \<and> no_go_move stopped_push_game = None
   \<and> board stopped_push_game \<noteq> board three_moves_game
   \<and> map_option fst (make_move stopped_push_game ''PlayerB'' (5, 0) ''F'') = Some True
   \<and> map_option (board \<circ> snd) (make_move stopped_push_game ''PlayerB'' (5, 0) ''F'')
       = Some (board three_moves_game)"
  by code_simp

section \<open>No legal push\<close>

text \<open>
  C7, as stated, fails. In the position where white has no legal push and it is
  PlayerA's turn, PlayerA's call on the blank cell (3, 3) returns False at the test of the
  marble's colour, before the search for a legal push: the object is unchanged and no
  winner is recorded.
\<close>

theorem C7_counterexample:
  "has_legal_push stuck_game (fst (players stuck_game)) = False
   \<and> lookup_player stuck_game ''PlayerA''
       = Some (fst (players stuck_game), snd (players stuck_game), 0)
   \<and> turn stuck_game = Some ''PlayerA''
   \<and> make_move stuck_game ''PlayerA'' (3, 3) ''L'' = Some (False, stuck_game)
   \<and> winner stuck_game = None"
  by code_simp

text \<open>
  C7, amended: when a player's colour has no legal push, a call of make\_move by that
  player that passes the tests before the search (it is the player's turn or the turn is
  unset, no winner is recorded, the coordinates are on the board and hold a marble of the
  player's colour) returns False and records the other player as the winner, whatever the
  direction.
\<close>

theorem C7_no_legal_push:
  assumes "wf_board (board s)" and "lookup_player s p = Some (cur, oth, i)"
    and "turn s = None \<or> turn s = Some p" and "winner s = None"
    and "in_range ct" and "get_cell (board s) ct = Some (get_color cur)"
    and "\<not> has_legal_push s cur"
  shows "\<exists>s'. make_move s p ct d = Some (False, s') \<and> winner s' = Some (get_name oth)"
  using assms(1)
proof (cases rule: make_move_cases[where p = p and ct = ct and d = d])
  case guard
  then show ?thesis using assms by auto
next
  case (stuck cur' oth' i' s1)
  then show ?thesis using assms(2) by auto
next
  case (rejected cur' oth' i' s1)
  then show ?thesis using assms has_legal_push_iff[OF assms(1), of cur] by auto
next
  case (pushed cur' oth' i' tb cm s')
  then show ?thesis using assms has_legal_push_iff[OF assms(1), of cur] by auto
qed

text \<open>
  The theorem in the same position, at PlayerA's call on its marble at (0, 0).
\<close>

theorem C7_no_legal_push_witness:
  "wf_board (board stuck_game)
   \<and> lookup_player stuck_game ''PlayerA''
       = Some (fst (players stuck_game), snd (players stuck_game), 0)
   \<and> turn stuck_game = Some ''PlayerA'' \<and> winner stuck_game = None \<and> in_range (0, 0)
   \<and> get_cell (board stuck_game) (0, 0) = Some ''W''
   \<and> has_legal_push stuck_game (fst (players stuck_game)) = False
   \<and> map_option fst (make_move stuck_game ''PlayerA'' (0, 0) ''R'') = Some False
   \<and> map_option (winner \<circ> snd) (make_move stuck_game ''PlayerA'' (0, 0) ''R'') = Some (Some ''PlayerB'')"
proof -
  have h1: "wf_board (board stuck_game)" by code_simp
  have h2: "lookup_player stuck_game ''PlayerA''
       = Some (fst (players stuck_game), snd (players stuck_game), 0)" by code_simp
  have h3: "turn stuck_game = None \<or> turn stuck_game = Some ''PlayerA''"
    by (simp add: stuck_game_def)
  have h4: "winner stuck_game = None" by (simp add: stuck_game_def)
  have h5: "in_range (0, 0)" by (simp add: in_range_def)
  have h6: "get_cell (board stuck_game) (0, 0) = Some (get_color (fst (players stuck_game)))"
    by code_simp
  have h7: "\<not> has_legal_push stuck_game (fst (players stuck_game))" by code_simp
  have c: "get_color (fst (players stuck_game)) = ''W''"
    "get_name (snd (players stuck_game)) = ''PlayerB''" "turn stuck_game = Some ''PlayerA''"
    by (simp_all add: stuck_game_def)
  from C7_no_legal_push[OF h1 h2 h3 h4 h5 h6 h7, of "''R''"]
  obtain s' where "make_move stuck_game ''PlayerA'' (0, 0) ''R'' = Some (False, s')"
    "winner s' = Some ''PlayerB''" using c(2) by auto
  then show ?thesis using h1 h2 h4 h5 h6 h7 c by simp
qed

section \<open>Pushing one's own marble off the board\<close>

text \<open>
  C8: if the line of a push, from the marble to the edge of the board, has no blank cell
  and the marble of its edge cell is of the caller's own colour, so that the push would
  move a marble of the caller off the board, then make\_move returns False and the board
  is as it was.
\<close>

theorem C8_no_self_elimination:
  assumes "wf_board (board s)" and "lookup_player s p = Some (cur, oth, i)"
    and "in_range ct" and "d \<in> set dirs"
    and "line_full (board s) ct d"
    and "get_cell (board s) (edge_cell d ct) = Some (get_color cur)"
  shows "\<exists>s'. make_move s p ct d = Some (False, s') \<and> board s' = board s"
  using assms(1)
proof (cases rule: make_move_cases[where p = p and ct = ct and d = d])
  case guard
  then show ?thesis by (auto split: if_splits)
next
  case (stuck cur' oth' i' s1)
  then show ?thesis by (auto simp: scratch_eq_def)
next
  case (rejected cur' oth' i' s1)
  then show ?thesis by (auto simp: scratch_eq_def)
next
  case (pushed cur' oth' i' tb cm s')
  then have "legal_push (board s) (no_go_move s) (get_color cur) ct d"
    using assms(2) by simp
  then show ?thesis using assms(5,6) by (simp add: legal_push_def)
qed

text \<open>
  The theorem in the initial position: PlayerA's push of (0, 1) to the left, where the
  cell behind is blank and the line is the two white marbles of row 0.
\<close>

theorem C8_no_self_elimination_witness:
  "wf_board (board new_game)
   \<and> lookup_player new_game ''PlayerA''
        = Some (fst (players new_game), snd (players new_game), 0)
   \<and> in_range (0, 1) \<and> ''L'' \<in> set dirs
   \<and> line_full (board new_game) (0, 1) ''L''
   \<and> get_cell (board new_game) (edge_cell ''L'' (0, 1)) = Some ''W''
   \<and> get_cell (board new_game) (0, 2) = Some ''X''
   \<and> map_option fst (make_move new_game ''PlayerA'' (0, 1) ''L'') = Some False
   \<and> map_option (board \<circ> snd) (make_move new_game ''PlayerA'' (0, 1) ''L'') = Some (board new_game)"
proof -
  have h1: "wf_board (board new_game)" by code_simp
  have h2: "lookup_player new_game ''PlayerA''
        = Some (fst (players new_game), snd (players new_game), 0)" by code_simp
  have h3: "in_range (0, 1)" by (simp add: in_range_def)
  have h4: "''L'' \<in> set dirs" by (simp add: dirs_def)
  have h5: "line_full (board new_game) (0, 1) ''L''" by code_simp
  have h6: "get_cell (board new_game) (edge_cell ''L'' (0, 1))
            = Some (get_color (fst (players new_game)))" by code_simp
  have c: "get_color (fst (players new_game)) = ''W''"
    by (simp add: new_game_def KubaGame_init_def KubaPlayer_init_def)
  have x: "get_cell (board new_game) (0, 2) = Some ''X''" by code_simp
  from C8_no_self_elimination[OF h1 h2 h3 h4 h5 h6]
  obtain s' where "make_move new_game ''PlayerA'' (0, 1) ''L'' = Some (False, s')"
    "board s' = board new_game" by blast
  then show ?thesis using h1 h2 h3 h4 h5 h6 c x by simp
qed

section \<open>Winning\<close>

text \<open>
  C9: make\_move returns True exactly when the call passes the tests on turn, winner,
  coordinates and colour and the push is legal, whatever the counts of the caller. After
  a call that returns True the winner is the caller if the caller has by then captured at
  least 7 red marbles or at least 8 marbles of the other colour, and is unset otherwise.
  The push adds one to the count of red marbles when the captured marble is red and one
  to the count of the opponent's marbles when it is of another colour, so the seventh red
  marble, or the eighth marble of the opponent, ends the game with that push.
\<close>

theorem C9_win_threshold:
  assumes "wf_board (board s)" and "lookup_player s p = Some (cur, oth, i)"
  shows "(map_option fst (make_move s p ct d) = Some True \<longleftrightarrow>
            (turn s = None \<or> turn s = Some p) \<and> winner s = None \<and> in_range ct \<and> d \<in> set dirs
            \<and> get_cell (board s) ct = Some (get_color cur)
            \<and> legal_push (board s) (no_go_move s) (get_color cur) ct d)
         \<and> (make_move s p ct d = Some (True, s') \<longrightarrow>
              winner s' = (if 7 \<le> get_red (player_at s' i) \<or> 8 \<le> get_opponent_marbles (player_at s' i)
                           then Some p else None)
              \<and> get_name (player_at s' i) = p
              \<and> captured_marble s'
                   = (if line_full (board s) ct d then get_cell (board s) (edge_cell d ct) else None)
              \<and> get_red (player_at s' i)
                   = get_red cur + (if captured_marble s' = Some ''R'' then 1 else 0)
              \<and> get_opponent_marbles (player_at s' i)
                   = get_opponent_marbles cur
                     + (if captured_marble s' = None \<or> captured_marble s' = Some ''R'' then 0 else 1))"
proof (intro conjI impI)
  show "map_option fst (make_move s p ct d) = Some True \<longleftrightarrow>
            (turn s = None \<or> turn s = Some p) \<and> winner s = None \<and> in_range ct \<and> d \<in> set dirs
            \<and> get_cell (board s) ct = Some (get_color cur)
            \<and> legal_push (board s) (no_go_move s) (get_color cur) ct d"
    unfolding make_move_accepts[OF assms(1), of p ct d] using assms(2) by simp
next
  assume mk: "make_move s p ct d = Some (True, s')"
  from assms(1) have "winner s' = (if 7 \<le> get_red (player_at s' i) \<or> 8 \<le> get_opponent_marbles (player_at s' i)
                           then Some p else None)
              \<and> get_name (player_at s' i) = p
              \<and> captured_marble s'
                   = (if line_full (board s) ct d then get_cell (board s) (edge_cell d ct) else None)
              \<and> get_red (player_at s' i)
                   = get_red cur + (if captured_marble s' = Some ''R'' then 1 else 0)
              \<and> get_opponent_marbles (player_at s' i)
                   = get_opponent_marbles cur
                     + (if captured_marble s' = None \<or> captured_marble s' = Some ''R'' then 0 else 1)"
  proof (cases rule: make_move_cases[where p = p and ct = ct and d = d])
    case (pushed cur' oth' i' tb cm s'')
    have eq: "s'' = s'" "cur' = cur" "i' = i" using pushed(1,12) mk assms(2) by simp_all
    have cur: "player_at s i = cur" "get_name cur = p"
      using assms(2) by (auto simp: lookup_player_def player_at_def split: if_splits)
    have pl: "players s' = players (case cm of None \<Rightarrow> s | Some v \<Rightarrow> update_marbles s v i)"
      and cm: "captured_marble s' = cm"
      and w: "winner s' = (if 8 \<le> get_opponent_marbles (player_at s' i) \<or> 7 \<le> get_red (player_at s' i)
                      then Some p else None)"
      using pushed(18,15,22) unfolding eq by simp_all
    have cmv: "cm = (if line_full (board s) ct d then get_cell (board s) (edge_cell d ct) else None)"
      using pushed(11) .
    have pa: "player_at s' i =
        (case cm of None \<Rightarrow> cur
         | Some v \<Rightarrow> if v = ''R'' then add_red cur else add_opponent_marbles cur)"
      using pl cur(1)
      by (auto simp: player_at_def update_marbles_def put_player_def Let_def split: option.splits)
    have 1: "winner s' = (if 7 \<le> get_red (player_at s' i) \<or> 8 \<le> get_opponent_marbles (player_at s' i)
                           then Some p else None)"
      using w by auto
    have 2: "get_name (player_at s' i) = p"
      using cur(2) by (auto simp: pa add_red_def add_opponent_marbles_def split: option.splits)
    have 3: "captured_marble s'
                   = (if line_full (board s) ct d then get_cell (board s) (edge_cell d ct) else None)"
      using cm cmv by simp
    have 4: "get_red (player_at s' i)
                   = get_red cur + (if captured_marble s' = Some ''R'' then 1 else 0)"
      unfolding cm by (auto simp: pa add_red_def add_opponent_marbles_def split: option.splits)
    have 5: "get_opponent_marbles (player_at s' i)
                   = get_opponent_marbles cur
                     + (if captured_marble s' = None \<or> captured_marble s' = Some ''R'' then 0 else 1)"
      unfolding cm by (auto simp: pa add_red_def add_opponent_marbles_def split: option.splits)
    show ?thesis using 1 2 3 4 5 by blast
  qed (use mk in auto)
  then show "winner s' = (if 7 \<le> get_red (player_at s' i) \<or> 8 \<le> get_opponent_marbles (player_at s' i)
                           then Some p else None)"
    and "get_name (player_at s' i) = p"
    and "captured_marble s'
                   = (if line_full (board s) ct d then get_cell (board s) (edge_cell d ct) else None)"
    and "get_red (player_at s' i)
                   = get_red cur + (if captured_marble s' = Some ''R'' then 1 else 0)"
    and "get_opponent_marbles (player_at s' i)
                   = get_opponent_marbles cur
                     + (if captured_marble s' = None \<or> captured_marble s' = Some ''R'' then 0 else 1)"
    by blast+
qed

text \<open>
  The theorem where PlayerA, with six red marbles captured, pushes a seventh off the
  board; at the first move of the script, which captures nothing and leaves the winner
  unset; and where PlayerA, with seven black marbles captured, pushes the eighth off.
\<close>

theorem C9_win_threshold_witness:
  "wf_board (board red_six_game)
   \<and> lookup_player red_six_game ''PlayerA''
        = Some (fst (players red_six_game), snd (players red_six_game), 0)
   \<and> get_red (fst (players red_six_game)) = 6
   \<and> map_option fst (make_move red_six_game ''PlayerA'' (2, 3) ''L'') = Some True
   \<and> map_option (captured_marble \<circ> snd) (make_move red_six_game ''PlayerA'' (2, 3) ''L'')
        = Some (Some ''R'')
   \<and> map_option (get_red \<circ> fst \<circ> players \<circ> snd) (make_move red_six_game ''PlayerA'' (2, 3) ''L'')
        = Some 7
   \<and> map_option (winner \<circ> snd) (make_move red_six_game ''PlayerA'' (2, 3) ''L'')
        = Some (Some ''PlayerA'')
   \<and> wf_board (board new_game)
   \<and> lookup_player new_game ''PlayerA''
        = Some (fst (players new_game), snd (players new_game), 0)
   \<and> map_option fst (make_move new_game ''PlayerA'' (6, 5) ''F'') = Some True
   \<and> map_option (winner \<circ> snd) (make_move new_game ''PlayerA'' (6, 5) ''F'') = Some None
   \<and> wf_board (board black_seven_game)
   \<and> lookup_player black_seven_game ''PlayerA''
        = Some (fst (players black_seven_game), snd (players black_seven_game), 0)
   \<and> get_opponent_marbles (fst (players black_seven_game)) = 7
   \<and> map_option fst (make_move black_seven_game ''PlayerA'' (3, 1) ''L'') = Some True
   \<and> map_option (captured_marble \<circ> snd) (make_move black_seven_game ''PlayerA'' (3, 1) ''L'')
        = Some (Some ''B'')
   \<and> map_option (get_opponent_marbles \<circ> fst \<circ> players \<circ> snd)
        (make_move black_seven_game ''PlayerA'' (3, 1) ''L'') = Some 8
   \<and> map_option (winner \<circ> snd) (make_move black_seven_game ''PlayerA'' (3, 1) ''L'')
        = Some (Some ''PlayerA'')"
proof -
  have h1: "wf_board (board red_six_game)" by code_simp
  have h3: "lookup_player red_six_game ''PlayerA''
        = Some (fst (players red_six_game), snd (players red_six_game), 0)" by code_simp
  have r6: "get_red (fst (players red_six_game)) = 6" by (simp add: red_six_game_def)
  have acc: "(turn red_six_game = None \<or> turn red_six_game = Some ''PlayerA'')
      \<and> winner red_six_game = None \<and> in_range (2, 3) \<and> ''L'' \<in> set dirs
      \<and> get_cell (board red_six_game) (2, 3) = Some (get_color (fst (players red_six_game)))
      \<and> legal_push (board red_six_game) (no_go_move red_six_game)
           (get_color (fst (players red_six_game))) (2, 3) ''L''"
    by code_simp
  have lf: "line_full (board red_six_game) (2, 3) ''L''"
    "get_cell (board red_six_game) (edge_cell ''L'' (2, 3)) = Some ''R''" by code_simp+
  have t1: "map_option fst (make_move red_six_game ''PlayerA'' (2, 3) ''L'') = Some True"
    using C9_win_threshold[OF h1 h3, of "(2, 3)" "''L''"] acc by blast
  then obtain s' where h2: "make_move red_six_game ''PlayerA'' (2, 3) ''L'' = Some (True, s')"
    by (cases "make_move red_six_game ''PlayerA'' (2, 3) ''L''") auto
  note t = C9_win_threshold[OF h1 h3, of "(2, 3)" "''L''" s', THEN conjunct2, rule_format, OF h2]
  have cm: "captured_marble s' = Some ''R''" using t lf by simp
  have red7: "get_red (player_at s' 0) = 7" using t cm r6 by simp
  have win: "winner s' = Some ''PlayerA''" using t red7 by simp
  have g1: "wf_board (board new_game)" by code_simp
  have g3: "lookup_player new_game ''PlayerA''
        = Some (fst (players new_game), snd (players new_game), 0)" by code_simp
  have gacc: "(turn new_game = None \<or> turn new_game = Some ''PlayerA'')
      \<and> winner new_game = None \<and> in_range (6, 5) \<and> ''F'' \<in> set dirs
      \<and> get_cell (board new_game) (6, 5) = Some (get_color (fst (players new_game)))
      \<and> legal_push (board new_game) (no_go_move new_game)
           (get_color (fst (players new_game))) (6, 5) ''F''"
    by code_simp
  have nlf: "\<not> line_full (board new_game) (6, 5) ''F''" by code_simp
  have z: "get_red (fst (players new_game)) = 0" "get_opponent_marbles (fst (players new_game)) = 0"
    by (simp_all add: new_game_def KubaGame_init_def KubaPlayer_init_def)
  have u1: "map_option fst (make_move new_game ''PlayerA'' (6, 5) ''F'') = Some True"
    using C9_win_threshold[OF g1 g3, of "(6, 5)" "''F''"] gacc by blast
  then obtain s'' where g2: "make_move new_game ''PlayerA'' (6, 5) ''F'' = Some (True, s'')"
    by (cases "make_move new_game ''PlayerA'' (6, 5) ''F''") auto
  note u = C9_win_threshold[OF g1 g3, of "(6, 5)" "''F''" s'', THEN conjunct2, rule_format, OF g2]
  have ncm: "captured_marble s'' = None" using u nlf by simp
  have "get_red (player_at s'' 0) = 0" "get_opponent_marbles (player_at s'' 0) = 0"
    using u ncm z by simp_all
  then have nowin: "winner s'' = None" using u by simp
  have k1: "wf_board (board black_seven_game)" by code_simp
  have k3: "lookup_player black_seven_game ''PlayerA''
        = Some (fst (players black_seven_game), snd (players black_seven_game), 0)" by code_simp
  have o7: "get_opponent_marbles (fst (players black_seven_game)) = 7"
    by (simp add: black_seven_game_def)
  have kacc: "(turn black_seven_game = None \<or> turn black_seven_game = Some ''PlayerA'')
      \<and> winner black_seven_game = None \<and> in_range (3, 1) \<and> ''L'' \<in> set dirs
      \<and> get_cell (board black_seven_game) (3, 1) = Some (get_color (fst (players black_seven_game)))
      \<and> legal_push (board black_seven_game) (no_go_move black_seven_game)
           (get_color (fst (players black_seven_game))) (3, 1) ''L''"
    by code_simp
  have klf: "line_full (board black_seven_game) (3, 1) ''L''"
    "get_cell (board black_seven_game) (edge_cell ''L'' (3, 1)) = Some ''B''" by code_simp+
  have v1: "map_option fst (make_move black_seven_game ''PlayerA'' (3, 1) ''L'') = Some True"
    using C9_win_threshold[OF k1 k3, of "(3, 1)" "''L''"] kacc by blast
  then obtain s3 where k2: "make_move black_seven_game ''PlayerA'' (3, 1) ''L'' = Some (True, s3)"
    by (cases "make_move black_seven_game ''PlayerA'' (3, 1) ''L''") auto
  note v = C9_win_threshold[OF k1 k3, of "(3, 1)" "''L''" s3, THEN conjunct2, rule_format, OF k2]
  have kcm: "captured_marble s3 = Some ''B''" using v klf by simp
  have opp8: "get_opponent_marbles (player_at s3 0) = 8" using v kcm o7 by simp
  have kwin: "winner s3 = Some ''PlayerA''" using v opp8 by simp
  have part1: "wf_board (board red_six_game)
   \<and> lookup_player red_six_game ''PlayerA''
        = Some (fst (players red_six_game), snd (players red_six_game), 0)
   \<and> get_red (fst (players red_six_game)) = 6
   \<and> map_option fst (make_move red_six_game ''PlayerA'' (2, 3) ''L'') = Some True
   \<and> map_option (captured_marble \<circ> snd) (make_move red_six_game ''PlayerA'' (2, 3) ''L'')
        = Some (Some ''R'')
   \<and> map_option (get_red \<circ> fst \<circ> players \<circ> snd) (make_move red_six_game ''PlayerA'' (2, 3) ''L'')
        = Some 7
   \<and> map_option (winner \<circ> snd) (make_move red_six_game ''PlayerA'' (2, 3) ''L'')
        = Some (Some ''PlayerA'')"
    using h1 h2 h3 r6 cm red7 win by (simp add: player_at_def)
  have part2: "wf_board (board new_game)
   \<and> lookup_player new_game ''PlayerA''
        = Some (fst (players new_game), snd (players new_game), 0)
   \<and> map_option fst (make_move new_game ''PlayerA'' (6, 5) ''F'') = Some True
   \<and> map_option (winner \<circ> snd) (make_move new_game ''PlayerA'' (6, 5) ''F'') = Some None"
    using g1 g2 g3 nowin by simp
  have part3: "wf_board (board black_seven_game)
   \<and> lookup_player black_seven_game ''PlayerA''
        = Some (fst (players black_seven_game), snd (players black_seven_game), 0)
   \<and> get_opponent_marbles (fst (players black_seven_game)) = 7
   \<and> map_option fst (make_move black_seven_game ''PlayerA'' (3, 1) ''L'') = Some True
   \<and> map_option (captured_marble \<circ> snd) (make_move black_seven_game ''PlayerA'' (3, 1) ''L'')
        = Some (Some ''B'')
   \<and> map_option (get_opponent_marbles \<circ> fst \<circ> players \<circ> snd)
        (make_move black_seven_game ''PlayerA'' (3, 1) ''L'') = Some 8
   \<and> map_option (winner \<circ> snd) (make_move black_seven_game ''PlayerA'' (3, 1) ''L'')
        = Some (Some ''PlayerA'')"
    using k1 k2 k3 o7 kcm opp8 kwin by (simp add: player_at_def)
  show ?thesis using part1 part2 part3 by blast
qed

section \<open>Termination without exception\<close>

text \<open>
  C10: in every state the game can reach, a call of make\_move with integer coordinates,
  any name and any direction returns a boolean: the model is a total function, all its
  loops run over fixed ranges, and the result is never \<open>None\<close>, so that every subscript
  the call evaluates lies within 0..6. A direction other than the four letters, and
  coordinates off the board, make the call return False.
\<close>

theorem C10_make_move_returns:
  assumes "reachable s"
  shows "(\<exists>ok s'. make_move s p (r, c) d = Some (ok, s'))
         \<and> (d \<notin> set dirs \<longrightarrow> map_option fst (make_move s p (r, c) d) = Some False)
         \<and> (\<not> in_range (r, c) \<longrightarrow> map_option fst (make_move s p (r, c) d) = Some False)"
proof -
  have wf: "wf_board (board s)" using assms by (rule reachable_wf)
  have 1: "\<exists>ok s'. make_move s p (r, c) d = Some (ok, s')"
    using wf by (cases rule: make_move_cases[where p = p and ct = "(r, c)" and d = d]) auto
  show ?thesis using 1 make_move_accepts[OF wf, of p "(r, c)" d] by auto
qed

text \<open>
  The theorem at the first call of a game, with an unknown name, coordinates off the
  board and a direction that is none of the four.
\<close>

theorem C10_make_move_returns_witness:
  "reachable new_game
   \<and> make_move new_game ''nobody'' (- 3, 99) ''up'' = Some (False, new_game\<lparr>turn := Some ''nobody''\<rparr>)
   \<and> ''up'' \<notin> set dirs \<and> \<not> in_range (- 3, 99)"
proof -
  have h: "reachable new_game" unfolding new_game_def by (rule reachable.init)
  have e: "make_move new_game ''nobody'' (- 3, 99) ''up''
           = Some (False, new_game\<lparr>turn := Some ''nobody''\<rparr>)"
    by (simp add: make_move_def new_game_def KubaGame_init_def)
  have "\<exists>ok s'. make_move new_game ''nobody'' (- 3, 99) ''up'' = Some (ok, s')"
    using C10_make_move_returns[OF h, of "''nobody''" "- 3" 99 "''up''"] by blast
  then show ?thesis using h e by (simp add: dirs_def in_range_def)
qed

end
